theory Spec2Isabelle
  imports Main "HOL-Library.Char_ord" "HOL-Library.List_Lexorder" "HOL-Library.Multiset"
    "HOL-Library.Sublist"
begin

section \<open>Strings and JavaScript values\<close>

text \<open>
  A JavaScript string is modelled by the list of the bytes of its UTF-8 form, which is
  also what SQLite stores and what goes over the wire. Every character the code looks
  for (the five HTML specials, the markdown delimiters, the backslash) is ASCII, and an
  ASCII byte never occurs inside a multi-byte sequence, so replacing and searching
  agree with JavaScript's work on UTF-16 code units.
\<close>

definition digit_char :: "nat \<Rightarrow> char" where
  "digit_char d = ''0123456789'' ! (d mod 10)"

function string_of_nat :: "nat \<Rightarrow> string" where
  "string_of_nat n =
     (if n < 10 then [digit_char n] else string_of_nat (n div 10) @ [digit_char n])"
  by pat_completeness auto
termination
  by (relation "measure id") auto

declare string_of_nat.simps [simp del]

definition string_of_int :: "int \<Rightarrow> string" where
  "string_of_int i = (if i < 0 then CHR ''-'' # string_of_nat (nat (- i)) else string_of_nat (nat i))"

text \<open>
  The values a JavaScript variable can hold. Formatting a floating-point number is
  outside the model: a number that is neither NaN nor a zero carries its decimal form
  (what \<^verbatim>\<open>String\<close> returns for it). An object carries the outcome of its conversion to
  a string: \<open>None\<close> when the conversion throws, as for \<^verbatim>\<open>Object.create(null)\<close> or an
  object whose \<^verbatim>\<open>toString\<close> throws.
\<close>

datatype jsnumber = NaN | Zero bool | Nonzero string

datatype jsval =
    JUndefined
  | JNull
  | JBool bool
  | JNumber jsnumber
  | JString string
  | JBigInt int
  | JSymbol string
  | JObject "string option"

datatype js_exn = TypeError

text \<open>\<^verbatim>\<open>!v\<close>: the falsy values of the language.\<close>

fun falsy :: "jsval \<Rightarrow> bool" where
  "falsy JUndefined = True"
| "falsy JNull = True"
| "falsy (JBool b) = (\<not> b)"
| "falsy (JNumber NaN) = True"
| "falsy (JNumber (Zero neg)) = True"
| "falsy (JNumber (Nonzero d)) = False"
| "falsy (JString s) = (s = [])"
| "falsy (JBigInt n) = (n = 0)"
| "falsy (JSymbol d) = False"
| "falsy (JObject c) = False"

text \<open>\<^verbatim>\<open>v === 0\<close>: strict equality with the number zero, which \<open>-0\<close> satisfies too.\<close>

fun strict_eq_zero :: "jsval \<Rightarrow> bool" where
  "strict_eq_zero (JNumber (Zero neg)) = True"
| "strict_eq_zero v = False"

text \<open>\<^verbatim>\<open>String(v)\<close>.\<close>

fun js_String :: "jsval \<Rightarrow> js_exn + string" where
  "js_String JUndefined = Inr ''undefined''"
| "js_String JNull = Inr ''null''"
| "js_String (JBool b) = Inr (if b then ''true'' else ''false'')"
| "js_String (JNumber NaN) = Inr ''NaN''"
| "js_String (JNumber (Zero neg)) = Inr ''0''"
| "js_String (JNumber (Nonzero d)) = Inr d"
| "js_String (JString s) = Inr s"
| "js_String (JBigInt n) = Inr (string_of_int n)"
| "js_String (JSymbol d) = Inr (''Symbol('' @ d @ '')'')"
| "js_String (JObject None) = Inl TypeError"
| "js_String (JObject (Some s)) = Inr s"

section \<open>escapeHtml\<close>

text \<open>\<^verbatim>\<open>s.replace(/c/g, r)\<close> for a pattern that is one literal character.\<close>

definition replace_all :: "char \<Rightarrow> string \<Rightarrow> string \<Rightarrow> string" where
  "replace_all c r s = concat (map (\<lambda>x. if x = c then r else [x]) s)"

text \<open>The chain of five replacements, in the order of the source.\<close>

definition escape_chain :: "string \<Rightarrow> string" where
  "escape_chain s =
     replace_all (CHR 0x27) ''&#039;''
       (replace_all (CHR 0x22) ''&quot;''
         (replace_all CHR ''>'' ''&gt;''
           (replace_all CHR ''<'' ''&lt;''
             (replace_all CHR ''&'' ''&amp;'' s))))"

definition escapeHtml :: "jsval \<Rightarrow> js_exn + string" where
  "escapeHtml s =
     (if falsy s \<and> \<not> strict_eq_zero s then Inr []
      else case js_String s of Inl e \<Rightarrow> Inl e | Inr t \<Rightarrow> Inr (escape_chain t))"

text \<open>
  escapeHtml at a string argument, which is how the templates call it (lemma
  \<open>escapeHtml_JString\<close> below).
\<close>

definition escapeHtml_text :: "string \<Rightarrow> string" where
  "escapeHtml_text s = (if s = [] then [] else escape_chain s)"

section \<open>markdownToHtml\<close>

text \<open>
  The regular expressions of \<^verbatim>\<open>markdownToHtml\<close> are written out as scanning functions.
  A dot matches any character but a line terminator: LF, CR, and U+2028 and U+2029,
  which are the byte sequences E2 80 A8 and E2 80 A9. \<open>line_terminator s\<close> is the length
  of the line terminator \<open>s\<close> starts with, and 0 when it starts with none.
\<close>

definition line_terminator :: "string \<Rightarrow> nat" where
  "line_terminator s =
     (case s of
        [] \<Rightarrow> 0
      | c # cs \<Rightarrow>
          if c = CHR 0x0A \<or> c = CHR 0x0D then 1
          else if c = CHR 0xE2 \<and> (take 2 cs = [CHR 0x80, CHR 0xA8] \<or> take 2 cs = [CHR 0x80, CHR 0xA9])
          then 3 else 0)"

text \<open>The text up to the next line terminator, and what follows it (terminator included).\<close>

fun span_line :: "string \<Rightarrow> string \<times> string" where
  "span_line [] = ([], [])"
| "span_line (c # cs) =
     (if 0 < line_terminator (c # cs) then ([], c # cs)
      else case span_line cs of (l, r) \<Rightarrow> (c # l, r))"

lemma span_line_length: "length (snd (span_line s)) \<le> length s"
  by (induction s) (auto split: prod.splits)

lemma span_line_terminator:
  "snd (span_line s) \<noteq> [] \<Longrightarrow> 0 < line_terminator (snd (span_line s))"
  by (induction s) (auto split: prod.splits if_splits)

text \<open>
  \<^verbatim>\<open>.replace(/^### (.*$)/gim, '<h3>$1</h3>')\<close> and its two siblings: with the flag \<open>m\<close>,
  \<open>^\<close> matches at the start of the text and after each line terminator, the greedy
  \<open>.*\<close> runs to the end of the line, and \<open>$\<close> matches there. So each line that starts
  with the marker (the hashes and one space) has its remainder wrapped.
\<close>

function heading_pass :: "string \<Rightarrow> string \<Rightarrow> string \<Rightarrow> string \<Rightarrow> string" where
  "heading_pass marker opn cls s =
     (let line = fst (span_line s);
          rest = snd (span_line s);
          line' = (if prefix marker line then opn @ drop (length marker) line @ cls else line)
      in if rest = [] then line'
         else line' @ take (line_terminator rest) rest @
              heading_pass marker opn cls (drop (line_terminator rest) rest))"
  by pat_completeness auto
termination
proof (relation "measure (\<lambda>(marker, opn, cls, s). length s)", goal_cases)
  case 1
  show ?case by simp
next
  case (2 marker opn cls s line rest line')
  then have "0 < line_terminator rest" and "length rest \<le> length s" and "0 < length rest"
    using span_line_terminator [of s] span_line_length [of s] by auto
  then have "length rest - line_terminator rest < length s"
    by arith
  then show ?case by simp
qed

declare heading_pass.simps [simp del]

text \<open>
  The lazy group \<open>(.*?)\<close> followed by a literal delimiter \<open>d\<close>: the shortest run of
  characters, none a line terminator, after which \<open>d\<close> stands. The result is the group
  and the text after the delimiter, or \<open>None\<close> when the line ends first.
\<close>

fun until_delim :: "string \<Rightarrow> string \<Rightarrow> (string \<times> string) option" where
  "until_delim d [] = (if d = [] then Some ([], []) else None)"
| "until_delim d (c # cs) =
     (if prefix d (c # cs) then Some ([], drop (length d) (c # cs))
      else if 0 < line_terminator (c # cs) then None
      else case until_delim d cs of
             None \<Rightarrow> None
           | Some (m, r) \<Rightarrow> Some (c # m, r))"

lemma until_delim_length: "until_delim d s = Some (m, r) \<Longrightarrow> length r \<le> length s"
  by (induction s arbitrary: m r) (auto split: if_splits option.splits)

text \<open>
  \<^verbatim>\<open>.replace(/\*\*(.*?)\*\*/gim, '<strong>$1</strong>')\<close> and
  \<^verbatim>\<open>.replace(/\*(.*?)\*/gim, '<em>$1</em>')\<close>: the leftmost match is replaced and the
  search goes on after it; where the opening delimiter has no closing one on its line,
  one character is copied and the search goes on at the next.
\<close>

function wrap_pass :: "string \<Rightarrow> string \<Rightarrow> string \<Rightarrow> string \<Rightarrow> string" where
  "wrap_pass d opn cls [] = []"
| "wrap_pass d opn cls (c # cs) =
     (if d \<noteq> [] \<and> prefix d (c # cs) then
        (case until_delim d (drop (length d) (c # cs)) of
           Some (m, r) \<Rightarrow> opn @ m @ cls @ wrap_pass d opn cls r
         | None \<Rightarrow> c # wrap_pass d opn cls cs)
      else c # wrap_pass d opn cls cs)"
  by pat_completeness auto
termination
  by (relation "measure (\<lambda>(d, opn, cls, s). length s)")
     (auto dest!: until_delim_length simp: neq_Nil_conv)

definition bold_pass :: "string \<Rightarrow> string" where
  "bold_pass = wrap_pass ''**'' ''<strong>'' ''</strong>''"

definition em_pass :: "string \<Rightarrow> string" where
  "em_pass = wrap_pass ''*'' ''<em>'' ''</em>''"

text \<open>
  \<^verbatim>\<open>.replace(/\[(.*?)\]\((.*?)\)/gim, '<a href="$2" target="_blank">$1</a>')\<close>. When
  the first \<open>](\<close> of the line has no closing parenthesis after it on the line, no later
  one has, so the first decides.
\<close>

function link_pass :: "string \<Rightarrow> string" where
  "link_pass [] = []"
| "link_pass (c # cs) =
     (if c = CHR ''['' then
        (case until_delim '']('' cs of
           None \<Rightarrow> c # link_pass cs
         | Some (t, r1) \<Rightarrow>
             (case until_delim '')'' r1 of
                None \<Rightarrow> c # link_pass cs
              | Some (u, r2) \<Rightarrow>
                  ''<a href=\"'' @ u @ ''\" target=\"_blank\">'' @ t @ ''</a>'' @ link_pass r2))
      else c # link_pass cs)"
  by pat_completeness auto
termination
  by (relation "measure length") (auto dest!: until_delim_length)

text \<open>
  \<^verbatim>\<open>out.split(/\\n\\n+/)\<close>. In the regular expression literal \<^verbatim>\<open>\\\<close> is an escaped
  backslash, so the separator is the four characters backslash, \<open>n\<close>, backslash, \<open>n\<close>
  and any further \<open>n\<close>; it is not a pair of newline characters.
\<close>

definition backslash :: char where
  "backslash = CHR 0x5C"

definition match_separator :: "string \<Rightarrow> string option" where
  "match_separator s =
     (if prefix [backslash, CHR ''n'', backslash, CHR ''n''] s
      then Some (dropWhile (\<lambda>x. x = CHR ''n'') (drop 4 s)) else None)"

lemma match_separator_length: "match_separator s = Some r \<Longrightarrow> length r < length s"
proof -
  assume a: "match_separator s = Some r"
  then have p: "prefix [backslash, CHR ''n'', backslash, CHR ''n''] s"
    and r: "r = dropWhile (\<lambda>x. x = CHR ''n'') (drop 4 s)"
    by (auto simp: match_separator_def split: if_splits)
  from p have "4 \<le> length s"
    by (auto simp: prefix_def)
  moreover have "length r \<le> length (drop 4 s)"
    unfolding r by (rule length_dropWhile_le)
  ultimately show ?thesis by simp
qed

function split_paragraphs :: "string \<Rightarrow> string \<Rightarrow> string list" where
  "split_paragraphs acc [] = [acc]"
| "split_paragraphs acc (c # cs) =
     (case match_separator (c # cs) of
        Some r \<Rightarrow> acc # split_paragraphs [] r
      | None \<Rightarrow> split_paragraphs (acc @ [c]) cs)"
  by pat_completeness auto
termination
  by (relation "measure (\<lambda>(acc, s). length s)") (auto dest: match_separator_length)

text \<open>\<^verbatim>\<open>p.replace(/\\n/g, '<br/>')\<close>: a backslash followed by \<open>n\<close>, not a newline.\<close>

fun break_pass :: "string \<Rightarrow> string" where
  "break_pass (b # n # cs) =
     (if b = backslash \<and> n = CHR ''n'' then ''<br/>'' @ break_pass cs
      else b # break_pass (n # cs))"
| "break_pass cs = cs"

definition markdownToHtml :: "string \<Rightarrow> string" where
  "markdownToHtml md =
     (if md = [] then []
      else
        let out =
          link_pass (em_pass (bold_pass
            (heading_pass ''# '' ''<h1>'' ''</h1>''
              (heading_pass ''## '' ''<h2>'' ''</h2>''
                (heading_pass ''### '' ''<h3>'' ''</h3>'' md)))))
        in concat (map (\<lambda>p. ''<p>'' @ break_pass p @ ''</p>'') (split_paragraphs [] out)))"

section \<open>Templates\<close>

text \<open>
  The template literals of the source, piece by piece between their interpolations.
  The two characters outside ASCII are given by their UTF-8 bytes.
\<close>

definition em_dash :: string where
  "em_dash = [CHR 0xE2, CHR 0x80, CHR 0x94]"

definition copyright_sign :: string where
  "copyright_sign = [CHR 0xC2, CHR 0xA9]"

definition page_open :: string where
  "page_open =
     ''<!doctype html>\<newline>'' @
     ''<html lang=\"en\">\<newline>'' @
     ''<head>\<newline>'' @
     ''  <meta charset=\"utf-8\" />\<newline>'' @
     ''  <meta name=\"viewport\" content=\"width=device-width,initial-scale=1\" />\<newline>'' @
     ''  <title>''"

definition page_style_and_header :: string where
  "page_style_and_header =
     '' '' @ em_dash @ '' Yusuf</title>\<newline>'' @
     ''  <style>\<newline>'' @
     ''    /* Minimal Tailwind-like utility classes (small subset) */\<newline>'' @
     ''    :root { --max:1100px; --muted:#6b7280; --accent:#0f172a; }\<newline>'' @
     ''    *{box-sizing:border-box}\<newline>'' @
     ''    body{font-family:Inter, Arial, sans-serif; margin:0; color:#111; background:#f8fafc}\<newline>'' @
     ''    .container{max-width:var(--max); margin:0 auto; padding:1rem}\<newline>'' @
     ''    header{background:var(--accent); color:white}\<newline>'' @
     ''    header .bar{display:flex; align-items:center; justify-content:space-between; gap:1rem}\<newline>'' @
     ''    header a{color:#cbd5e1; text-decoration:none; margin-left:1rem}\<newline>'' @
     ''    .hero{padding:2rem 0}\<newline>'' @
     ''    .grid{display:grid; gap:1rem; grid-template-columns:repeat(auto-fill,minmax(240px,1fr))}\<newline>'' @
     ''    .card{background:white; padding:1rem; border-radius:8px; box-shadow:0 1px 2px rgba(0,0,0,.04)}\<newline>'' @
     ''    .footer{background:#fff; padding:1rem 0; margin-top:2rem; border-top:1px solid #e6e9ef; color:var(--muted)}\<newline>'' @
     ''    form input, form textarea {width:100%; padding:.6rem; border-radius:6px; border:1px solid #ddd; margin-top:.25rem}\<newline>'' @
     ''    .btn {background:var(--accent); color:white; padding:.5rem .8rem; border-radius:6px; border:none; cursor:pointer}\<newline>'' @
     ''    .muted{color:var(--muted)}\<newline>'' @
     ''    .prose img{max-width:100%}\<newline>'' @
     ''    .admin-panel{display:flex; gap:1rem; flex-wrap:wrap}\<newline>'' @
     ''    .small{font-size:.9rem; color:var(--muted)}\<newline>'' @
     ''  </style>\<newline>'' @
     ''</head>\<newline>'' @
     ''<body>\<newline>'' @
     ''  <header>\<newline>'' @
     ''    <div class=\"container bar\">\<newline>'' @
     ''      <div><strong>Yusuf '' @ em_dash @ '' Programmer</strong></div>\<newline>'' @
     ''      <nav>\<newline>'' @
     ''        <a href=\"/\">Home</a>\<newline>'' @
     ''        <a href=\"/#projects\">Projects</a>\<newline>'' @
     ''        <a href=\"/#blog\">Blog</a>\<newline>'' @
     ''        <a href=\"/admin/login\">Admin</a>\<newline>'' @
     ''      </nav>\<newline>'' @
     ''    </div>\<newline>'' @
     ''  </header>\<newline>'' @
     ''\<newline>'' @
     ''  <main class=\"container\">\<newline>'' @
     ''    ''"

definition page_footer :: string where
  "page_footer =
     ''\<newline>'' @
     ''  </main>\<newline>'' @
     ''\<newline>'' @
     ''  <footer class=\"footer\">\<newline>'' @
     ''    <div class=\"container small\">'' @ copyright_sign @ '' ''"

definition page_script_and_close :: string where
  "page_script_and_close =
     '' Yusuf Abdulsalam '' @ em_dash @ '' Built with Node.js</div>\<newline>'' @
     ''  </footer>\<newline>'' @
     ''\<newline>'' @
     ''  <script>\<newline>'' @
     ''    // Client-side helper: contact form submit\<newline>'' @
     ''    async function submitContact(e){\<newline>'' @
     ''      e.preventDefault();\<newline>'' @
     ''      const f = e.target;\<newline>'' @
     ''      const data = { name: f.name.value.trim(), email: f.email.value.trim(), message: f.message.value.trim() };\<newline>'' @
     ''      if(!data.name || !data.email || !data.message){ alert('Please fill all fields'); return; }\<newline>'' @
     ''      try {\<newline>'' @
     ''        const res = await fetch('/api/contact', { method:'POST', headers:{'Content-Type':'application/json'}, body: JSON.stringify(data) });\<newline>'' @
     ''        const j = await res.json();\<newline>'' @
     ''        if(j && j.success){ alert('Message sent '' @ em_dash @ '' thank you'); f.reset(); }\<newline>'' @
     ''        else alert('Error sending message');\<newline>'' @
     ''      } catch(err) { alert('Network error'); }\<newline>'' @
     ''    }\<newline>'' @
     ''  </script>\<newline>'' @
     ''</body>\<newline>'' @
     ''</html>''"

definition home_hero_and_projects :: string where
  "home_hero_and_projects =
     ''\<newline>'' @
     ''  <section class=\"hero\">\<newline>'' @
     ''    <h1 style=\"font-size:2rem; margin-bottom:.25rem\">Hello '' @ em_dash @ '' I'm Yusuf</h1>\<newline>'' @
     ''    <p class=\"muted\">Freelance programmer building web apps and APIs. I specialize in modern web development.</p>\<newline>'' @
     ''  </section>\<newline>'' @
     ''\<newline>'' @
     ''  <section id=\"projects\" style=\"margin-top:2rem\">\<newline>'' @
     ''    <h2>Selected Projects</h2>\<newline>'' @
     ''    <div class=\"grid\" style=\"margin-top:.75rem\">\<newline>'' @
     ''      ''"

definition home_blog :: string where
  "home_blog =
     ''\<newline>'' @
     ''    </div>\<newline>'' @
     ''  </section>\<newline>'' @
     ''\<newline>'' @
     ''  <section id=\"blog\" style=\"margin-top:2rem\">\<newline>'' @
     ''    <h2>Blog</h2>\<newline>'' @
     ''    <div style=\"margin-top:.75rem\">\<newline>'' @
     ''      ''"

definition home_contact :: string where
  "home_contact =
     ''\<newline>'' @
     ''    </div>\<newline>'' @
     ''  </section>\<newline>'' @
     ''\<newline>'' @
     ''  <section id=\"contact\" style=\"margin-top:2rem\">\<newline>'' @
     ''    <h2>Contact</h2>\<newline>'' @
     ''    <form onsubmit=\"submitContact(event)\" style=\"max-width:700px; margin-top:.5rem\">\<newline>'' @
     ''      <label>Name <input name=\"name\" required /></label><br/>\<newline>'' @
     ''      <label>Email <input name=\"email\" type=\"email\" required /></label><br/>\<newline>'' @
     ''      <label>Message <textarea name=\"message\" rows=\"6\" required></textarea></label><br/>\<newline>'' @
     ''      <button class=\"btn\" type=\"submit\">Send message</button>\<newline>'' @
     ''    </form>\<newline>'' @
     ''  </section>\<newline>'' @
     ''\<newline>'' @
     ''  ''"

definition login_heading :: string where
  "login_heading =
     ''\<newline>'' @
     ''    <h2>Admin Login</h2>\<newline>'' @
     ''    ''"

definition login_form_open :: string where
  "login_form_open =
     ''\<newline>'' @
     ''    <form method=\"POST\" action=\"/admin/login\" style=\"max-width:400px\">\<newline>'' @
     ''      <label>Email <input name=\"email\" type=\"email\" required value=\"''"

definition login_form_close :: string where
  "login_form_close =
     ''\" /></label><br/>\<newline>'' @
     ''      <label>Password <input name=\"password\" type=\"password\" required /></label><br/>\<newline>'' @
     ''      <button class=\"btn\" type=\"submit\">Login</button>\<newline>'' @
     ''    </form>\<newline>'' @
     ''  ''"

definition dashboard_heading :: string where
  "dashboard_heading =
     ''\<newline>'' @
     ''    <div style=\"display:flex; justify-content:space-between; align-items:center; gap:1rem\">\<newline>'' @
     ''      <h2>Admin Dashboard</h2>\<newline>'' @
     ''      <div><a href=\"/admin/logout\">Logout</a></div>\<newline>'' @
     ''    </div>\<newline>'' @
     ''\<newline>'' @
     ''    <section style=\"margin-top:1rem\">\<newline>'' @
     ''      <h3>Messages</h3>\<newline>'' @
     ''      ''"

definition dashboard_manage_posts :: string where
  "dashboard_manage_posts =
     ''\<newline>'' @
     ''    </section>\<newline>'' @
     ''\<newline>'' @
     ''    <section style=\"margin-top:1.5rem\">\<newline>'' @
     ''      <h3>Manage Posts</h3>\<newline>'' @
     ''      <div class=\"card\" style=\"margin-top:.5rem\">\<newline>'' @
     ''        <form method=\"POST\" action=\"/admin/posts\" style=\"display:grid; gap:.5rem\">\<newline>'' @
     ''          <label>Slug (unique) <input name=\"slug\" placeholder=\"my-first-post\" required /></label>\<newline>'' @
     ''          <label>Title <input name=\"title\" required /></label>\<newline>'' @
     ''          <label>Excerpt <input name=\"excerpt\" /></label>\<newline>'' @
     ''          <label>Content (plain text or markdown) <textarea name=\"content\" rows=\"6\" required></textarea></label>\<newline>'' @
     ''          <div style=\"display:flex; gap:.5rem\">\<newline>'' @
     ''            <button class=\"btn\" type=\"submit\">Create / Update</button>\<newline>'' @
     ''          </div>\<newline>'' @
     ''        </form>\<newline>'' @
     ''      </div>\<newline>'' @
     ''\<newline>'' @
     ''      <div style=\"margin-top:.75rem\">\<newline>'' @
     ''        <h4>Existing posts</h4>\<newline>'' @
     ''        ''"

definition dashboard_close :: string where
  "dashboard_close =
     ''\<newline>'' @
     ''      </div>\<newline>'' @
     ''    </section>\<newline>'' @
     ''  ''"

definition message_card_open :: string where
  "message_card_open =
     ''\<newline>'' @
     ''        <div class=\"card\" style=\"margin-top:.5rem\">\<newline>'' @
     ''          <div class=\"small\">''"

definition message_card_body :: string where
  "message_card_body =
     ''</div>\<newline>'' @
     ''          <div style=\"margin-top:.5rem\">''"

definition message_card_form :: string where
  "message_card_form =
     ''</div>\<newline>'' @
     ''          <form method=\"POST\" action=\"/admin/messages/delete\" style=\"margin-top:.5rem\">\<newline>'' @
     ''            <input type=\"hidden\" name=\"id\" value=\"''"

definition message_card_close :: string where
  "message_card_close =
     ''\" />\<newline>'' @
     ''            <button class=\"btn\" type=\"submit\">Delete message</button>\<newline>'' @
     ''          </form>\<newline>'' @
     ''        </div>''"

definition post_item_form :: string where
  "post_item_form =
     ''</span>\<newline>'' @
     ''          <form method=\"POST\" action=\"/admin/posts/delete\" style=\"display:inline-block; margin-left:.5rem\">\<newline>'' @
     ''            <input type=\"hidden\" name=\"slug\" value=\"''"

definition post_item_close :: string where
  "post_item_close =
     ''\" />\<newline>'' @
     ''            <button class=\"btn\" type=\"submit\">Delete</button>\<newline>'' @
     ''          </form>\<newline>'' @
     ''        </li>''"

text \<open>\<^verbatim>\<open>v || ''\<close> for a column that is a text or NULL.\<close>

definition or_empty :: "string option \<Rightarrow> string" where
  "or_empty v = (case v of None \<Rightarrow> [] | Some s \<Rightarrow> s)"

text \<open>\<^verbatim>\<open>xs.join(sep)\<close>.\<close>

fun join :: "string \<Rightarrow> string list \<Rightarrow> string" where
  "join sep [] = []"
| "join sep [x] = x"
| "join sep (x # y # ys) = x @ sep @ join sep (y # ys)"

text \<open>
  \<^verbatim>\<open>encodeURIComponent\<close>, byte by byte on the UTF-8 form: the unreserved characters
  stay, every other byte becomes a percent sign and two upper-case hexadecimal digits.
\<close>

definition uri_unreserved :: "char \<Rightarrow> bool" where
  "uri_unreserved c \<longleftrightarrow>
     c \<in> set (''ABCDEFGHIJKLMNOPQRSTUVWXYZabcdefghijklmnopqrstuvwxyz0123456789-_.!~*'' @
              [CHR 0x27] @ ''()'')"

definition hex_digit :: "nat \<Rightarrow> char" where
  "hex_digit d = ''0123456789ABCDEF'' ! (d mod 16)"

definition percent_encode :: "char \<Rightarrow> string" where
  "percent_encode c =
     (if uri_unreserved c then [c]
      else [CHR ''%'', hex_digit (of_char c div 16), hex_digit (of_char c)])"

definition encodeURIComponent :: "string \<Rightarrow> string" where
  "encodeURIComponent s = concat (map percent_encode s)"

text \<open>The page frame. \<open>year\<close> is \<^verbatim>\<open>new Date().getFullYear()\<close>.\<close>

definition renderPage :: "nat \<Rightarrow> string \<Rightarrow> string \<Rightarrow> string" where
  "renderPage year title bodyHtml =
     page_open @ escapeHtml_text title @ page_style_and_header @ bodyHtml @
     page_footer @ string_of_nat year @ page_script_and_close"

record project =
  pr_id :: nat
  pr_title :: string
  pr_description :: string
  pr_tech :: "string list"

definition projects :: "project list" where
  "projects =
     [\<lparr>pr_id = 1, pr_title = ''Portfolio Website'',
       pr_description = ''Responsive portfolio with contact form and blog'',
       pr_tech = [''HTML'', ''CSS'', ''Node'']\<rparr>,
      \<lparr>pr_id = 2, pr_title = ''API Backend'',
       pr_description = ''Express + SQLite backend for small apps'',
       pr_tech = [''Node'', ''Express'', ''SQLite'']\<rparr>]"

definition project_card :: "project \<Rightarrow> string" where
  "project_card p =
     ''<div class=\"card\"><h3>'' @ escapeHtml_text (pr_title p) @
     ''</h3><p class=\"muted\">'' @ escapeHtml_text (pr_description p) @
     ''</p><small class=\"small\">Tech: '' @ escapeHtml_text (join '', '' (pr_tech p)) @
     ''</small></div>''"

type_synonym timestamp = string

record message =
  m_id :: int
  m_name :: string
  m_email :: string
  m_message :: string
  m_created_at :: timestamp

record post =
  p_id :: int
  p_slug :: string
  p_title :: string
  p_excerpt :: "string option"
  p_content :: "string option"
  p_created_at :: timestamp

record session =
  isAdmin :: bool
  adminEmail :: "string option"

text \<open>\<^verbatim>\<open>session && session.isAdmin\<close>, with \<open>None\<close> for a request that has no session.\<close>

definition is_admin :: "session option \<Rightarrow> bool" where
  "is_admin s = (case s of None \<Rightarrow> False | Some x \<Rightarrow> isAdmin x)"

definition post_card :: "post \<Rightarrow> string" where
  "post_card p =
     ''<div class=\"card\" style=\"margin-bottom:.6rem\"><h3><a href=\"/post/'' @
     encodeURIComponent (p_slug p) @ ''\">'' @ escapeHtml_text (p_title p) @
     ''</a></h3><p class=\"muted\">'' @ escapeHtml_text (or_empty (p_excerpt p)) @
     ''</p></div>''"

definition renderHome :: "project list \<Rightarrow> post list \<Rightarrow> session option \<Rightarrow> string" where
  "renderHome prs ps s =
     home_hero_and_projects @ concat (map project_card prs) @ home_blog @
     (if ps \<noteq> [] then concat (map post_card ps)
      else ''<p class=\"muted\">No posts yet.</p>'') @
     home_contact @
     (if is_admin s then ''<p style=\"margin-top:1rem\"><a href=\"/admin\">Go to admin</a></p>''
      else []) @
     ''\<newline>  ''"

text \<open>\<^verbatim>\<open>req.query.error\<close> is absent or a text; \<open>admin_email\<close> is \<^verbatim>\<open>ADMIN_EMAIL\<close>.\<close>

definition renderAdminLogin :: "string \<Rightarrow> string option \<Rightarrow> string" where
  "renderAdminLogin admin_email error =
     login_heading @
     (if error \<noteq> None \<and> error \<noteq> Some []
      then ''<p class=\"muted\" style=\"color:#a00\">Invalid credentials</p>'' else []) @
     login_form_open @ escapeHtml_text admin_email @ login_form_close"

definition message_card :: "message \<Rightarrow> string" where
  "message_card m =
     message_card_open @ escapeHtml_text (m_email m) @ '' '' @ em_dash @ '' '' @
     escapeHtml_text (m_created_at m) @ message_card_body @
     escapeHtml_text (m_message m) @ message_card_form @
     string_of_int (m_id m) @ message_card_close"

definition post_item :: "post \<Rightarrow> string" where
  "post_item p =
     ''<li style=\"margin-bottom:.5rem\"><strong>'' @ escapeHtml_text (p_title p) @
     ''</strong> '' @ em_dash @ '' <span class=\"small\">'' @ escapeHtml_text (p_slug p) @
     post_item_form @ escapeHtml_text (p_slug p) @ post_item_close"

definition renderAdminDashboard :: "message list \<Rightarrow> post list \<Rightarrow> string" where
  "renderAdminDashboard ms ps =
     dashboard_heading @
     (if ms \<noteq> [] then concat (map message_card ms)
      else ''<p class=\"muted\">No messages yet.</p>'') @
     dashboard_manage_posts @
     (if ps \<noteq> [] then ''<ul>'' @ concat (map post_item ps) @ ''</ul>''
      else ''<p class=\"muted\">No posts.</p>'') @
     dashboard_close"

text \<open>The body of \<^verbatim>\<open>/post/:slug\<close> for the row found, and for none.\<close>

definition post_article :: "post \<Rightarrow> string" where
  "post_article row =
     ''<article class=\"prose max-w-none\"><h1>'' @ escapeHtml_text (p_title row) @
     ''</h1><p class=\"text-gray-600\">'' @ escapeHtml_text (or_empty (p_excerpt row)) @
     ''</p><div>'' @ markdownToHtml (escapeHtml_text (or_empty (p_content row))) @
     ''</div><p><a href=\"/\">Back</a></p></article>''"

definition post_not_found :: string where
  "post_not_found = ''<h2>Post not found</h2><p><a href=\"/\">Back</a></p>''"

section \<open>The store\<close>

text \<open>
  The two SQLite tables, in insertion order, each with the counter that
  \<^verbatim>\<open>AUTOINCREMENT\<close> keeps in \<^verbatim>\<open>sqlite_sequence\<close>: the largest rowid the table ever
  held. Rowids are mathematical integers; SQLite's refusal to go past \<open>2^63 - 1\<close> is one
  of the errors a statement can report, which are an input here (\<open>fails\<close>).
\<close>

record store =
  messages :: "message list"
  messages_seq :: int
  posts :: "post list"
  posts_seq :: int

datatype statement =
    SelectPosts
  | SelectPostBySlug
  | InsertMessage
  | SelectMessages
  | ReplacePost
  | DeletePost
  | DeleteMessage

text \<open>
  What a request handler receives from outside: \<^verbatim>\<open>CURRENT_TIMESTAMP\<close> (a text
  \<^verbatim>\<open>YYYY-MM-DD HH:MM:SS\<close>), the current year, which statements SQLite reports an error
  for, and the integer SQLite converts a bound text to before comparing it with an
  INTEGER column (\<open>None\<close> when the text is not numeric and so equals no rowid).
\<close>

record env =
  now :: timestamp
  year :: nat
  fails :: "statement \<Rightarrow> bool"
  numeric :: "string \<Rightarrow> int option"

datatype db_error = DbError

text \<open>
  \<^verbatim>\<open>ORDER BY created_at DESC\<close>: the texts compare byte by byte. Rows with equal
  timestamps stay in table order here; SQLite leaves their order open.
\<close>

definition newest_first :: "('a \<Rightarrow> timestamp) \<Rightarrow> 'a list \<Rightarrow> 'a list" where
  "newest_first created xs = rev (sort_key created (rev xs))"

definition next_rowid :: "int \<Rightarrow> int list \<Rightarrow> int" where
  "next_rowid seq ids = fold max ids seq + 1"

text \<open>\<^verbatim>\<open>SELECT id, slug, title, excerpt, created_at FROM posts ORDER BY created_at DESC\<close>\<close>

definition select_posts :: "env \<Rightarrow> store \<Rightarrow> db_error + post list" where
  "select_posts e db =
     (if fails e SelectPosts then Inl DbError
      else Inr (map (\<lambda>p. p\<lparr>p_content := None\<rparr>) (newest_first p_created_at (posts db))))"

text \<open>\<^verbatim>\<open>SELECT id, name, email, message, created_at FROM messages ORDER BY created_at DESC\<close>\<close>

definition select_messages :: "env \<Rightarrow> store \<Rightarrow> db_error + message list" where
  "select_messages e db =
     (if fails e SelectMessages then Inl DbError
      else Inr (newest_first m_created_at (messages db)))"

text \<open>\<^verbatim>\<open>SELECT * FROM posts WHERE slug = ?\<close>, first row.\<close>

definition select_post :: "env \<Rightarrow> store \<Rightarrow> string \<Rightarrow> db_error + post option" where
  "select_post e db slug =
     (if fails e SelectPostBySlug then Inl DbError
      else Inr (find (\<lambda>p. p_slug p = slug) (posts db)))"

text \<open>
  \<^verbatim>\<open>INSERT INTO messages (name, email, message) VALUES (?, ?, ?)\<close>; the result carries
  \<^verbatim>\<open>this.lastID\<close>.
\<close>

definition insert_message ::
  "env \<Rightarrow> store \<Rightarrow> string \<Rightarrow> string \<Rightarrow> string \<Rightarrow> db_error + (int \<times> store)" where
  "insert_message e db name email message =
     (if fails e InsertMessage then Inl DbError
      else
        let i = next_rowid (messages_seq db) (map m_id (messages db));
            row = \<lparr>m_id = i, m_name = name, m_email = email, m_message = message,
                   m_created_at = now e\<rparr>
        in Inr (i, db\<lparr>messages := messages db @ [row], messages_seq := i\<rparr>))"

text \<open>
  \<^verbatim>\<open>INSERT OR REPLACE INTO posts (slug, title, excerpt, content) VALUES (?, ?, ?, ?)\<close>:
  the rows that clash on the unique slug are deleted, and the new row is inserted with
  the next rowid and the current timestamp.
\<close>

definition replace_post ::
  "env \<Rightarrow> store \<Rightarrow> string \<Rightarrow> string \<Rightarrow> string option \<Rightarrow> string option \<Rightarrow> db_error + store" where
  "replace_post e db slug title excerpt content =
     (if fails e ReplacePost then Inl DbError
      else
        let i = next_rowid (posts_seq db) (map p_id (posts db));
            row = \<lparr>p_id = i, p_slug = slug, p_title = title, p_excerpt = excerpt,
                   p_content = content, p_created_at = now e\<rparr>
        in Inr (db\<lparr>posts := filter (\<lambda>p. p_slug p \<noteq> slug) (posts db) @ [row],
                   posts_seq := i\<rparr>))"

text \<open>\<^verbatim>\<open>DELETE FROM posts WHERE slug = ?\<close>\<close>

definition delete_post :: "env \<Rightarrow> store \<Rightarrow> string \<Rightarrow> db_error + store" where
  "delete_post e db slug =
     (if fails e DeletePost then Inl DbError
      else Inr (db\<lparr>posts := filter (\<lambda>p. p_slug p \<noteq> slug) (posts db)\<rparr>))"

text \<open>\<^verbatim>\<open>DELETE FROM messages WHERE id = ?\<close>, the parameter being the text of the form field.\<close>

definition delete_message :: "env \<Rightarrow> store \<Rightarrow> string \<Rightarrow> db_error + store" where
  "delete_message e db idtext =
     (if fails e DeleteMessage then Inl DbError
      else Inr (db\<lparr>messages := filter (\<lambda>m. numeric e idtext \<noteq> Some (m_id m)) (messages db)\<rparr>))"

section \<open>Routes\<close>

text \<open>
  A parsed request body is the map from field names to their texts, as a submitted
  form gives it (a JSON body with a field that is not a text is outside the model).
  \<^verbatim>\<open>req.body\<close> is \<open>None\<close> when no body was parsed and it is left undefined, as
  body-parser 2 does for a request without a body of a type it reads (body-parser 1
  sets an empty object; the source pins no version). Destructuring it then throws a
  TypeError. The session of the requesting client is \<open>None\<close> when the request
  carries no session object.
\<close>

type_synonym body = "string \<rightharpoonup> string"

record config =
  ADMIN_EMAIL :: string
  ADMIN_PASSWORD :: string

datatype request =
    GetHome
  | GetPost string
  | PostContact "body option"
  | GetFavicon
  | GetAdminLogin "string option"
  | PostAdminLogin "body option"
  | GetAdminLogout
  | GetAdmin
  | PostAdminPosts "body option"
  | PostAdminPostsDelete "body option"
  | PostAdminMessagesDelete "body option"

datatype json = JsonError string | JsonSuccess int

text \<open>
  \<open>Send\<close> and \<open>Json\<close> carry the status code; \<open>Redirect\<close> is \<^verbatim>\<open>res.redirect\<close>; \<open>Thrown\<close> is
  an exception that leaves the handler, which Express answers with status 500.
\<close>

datatype response =
    Send nat string
  | Json nat json
  | Redirect string
  | End nat
  | Thrown js_exn

type_synonym outcome = "response \<times> session option \<times> store"

text \<open>\<^verbatim>\<open>if (err) rows = []\<close>\<close>

definition rows_or_empty :: "db_error + 'a list \<Rightarrow> 'a list" where
  "rows_or_empty r = (case r of Inl err \<Rightarrow> [] | Inr rows \<Rightarrow> rows)"

definition requireAdmin :: "session option \<Rightarrow> store \<Rightarrow> outcome \<Rightarrow> outcome" where
  "requireAdmin s db next = (if is_admin s then next else (Redirect ''/admin/login'', s, db))"

definition get_home :: "env \<Rightarrow> session option \<Rightarrow> store \<Rightarrow> outcome" where
  "get_home e s db =
     (Send 200 (renderPage (year e) ''Home''
        (renderHome projects (rows_or_empty (select_posts e db)) s)), s, db)"

definition get_post :: "env \<Rightarrow> string \<Rightarrow> session option \<Rightarrow> store \<Rightarrow> outcome" where
  "get_post e slug s db =
     (case select_post e db slug of
        Inr (Some row) \<Rightarrow> (Send 200 (renderPage (year e) (p_title row) (post_article row)), s, db)
      | _ \<Rightarrow> (Send 404 (renderPage (year e) ''Not found'' post_not_found), s, db))"

definition post_api_contact :: "env \<Rightarrow> body option \<Rightarrow> session option \<Rightarrow> store \<Rightarrow> outcome" where
  "post_api_contact e req_body s db =
     (case req_body of
        None \<Rightarrow> (Thrown TypeError, s, db)
      | Some b \<Rightarrow>
          (case (b ''name'', b ''email'', b ''message'') of
             (Some name, Some email, Some message) \<Rightarrow>
               if name = [] \<or> email = [] \<or> message = []
               then (Json 400 (JsonError ''name, email and message required''), s, db)
               else (case insert_message e db name email message of
                       Inl err \<Rightarrow> (Json 500 (JsonError ''db error''), s, db)
                     | Inr (i, db') \<Rightarrow> (Json 200 (JsonSuccess i), s, db'))
           | _ \<Rightarrow> (Json 400 (JsonError ''name, email and message required''), s, db)))"

definition get_admin_login :: "config \<Rightarrow> env \<Rightarrow> string option \<Rightarrow> session option \<Rightarrow> store \<Rightarrow> outcome" where
  "get_admin_login cfg e error s db =
     (if is_admin s then (Redirect ''/admin'', s, db)
      else (Send 200 (renderPage (year e) ''Admin Login''
              (renderAdminLogin (ADMIN_EMAIL cfg) error)), s, db))"

definition post_admin_login :: "config \<Rightarrow> body option \<Rightarrow> session option \<Rightarrow> store \<Rightarrow> outcome" where
  "post_admin_login cfg req_body s db =
     (case req_body of
        None \<Rightarrow> (Thrown TypeError, s, db)
      | Some b \<Rightarrow>
          if b ''email'' = Some (ADMIN_EMAIL cfg) \<and> b ''password'' = Some (ADMIN_PASSWORD cfg)
          then (case s of
                  None \<Rightarrow> (Thrown TypeError, s, db)
                | Some x \<Rightarrow>
                    (Redirect ''/admin'', Some (x\<lparr>isAdmin := True, adminEmail := b ''email''\<rparr>), db))
          else (Redirect ''/admin/login?error=invalid'', s, db))"

definition get_admin_logout :: "session option \<Rightarrow> store \<Rightarrow> outcome" where
  "get_admin_logout s db =
     (case s of
        None \<Rightarrow> (Thrown TypeError, s, db)
      | Some x \<Rightarrow> (Redirect ''/'', None, db))"

definition get_admin :: "env \<Rightarrow> session option \<Rightarrow> store \<Rightarrow> outcome" where
  "get_admin e s db =
     requireAdmin s db
       (Send 200 (renderPage (year e) ''Admin Dashboard''
          (renderAdminDashboard (rows_or_empty (select_messages e db))
             (rows_or_empty (select_posts e db)))), s, db)"

definition post_admin_posts :: "env \<Rightarrow> body option \<Rightarrow> session option \<Rightarrow> store \<Rightarrow> outcome" where
  "post_admin_posts e req_body s db =
     requireAdmin s db
       (case req_body of
          None \<Rightarrow> (Thrown TypeError, s, db)
        | Some b \<Rightarrow>
            (case (b ''slug'', b ''title'', b ''content'') of
               (Some slug, Some title, Some content) \<Rightarrow>
                 if slug = [] \<or> title = [] \<or> content = []
                 then (Redirect ''/admin?msg=missing'', s, db)
                 else (case replace_post e db slug title (b ''excerpt'') (Some content) of
                         Inl err \<Rightarrow> (Redirect ''/admin?msg=error'', s, db)
                       | Inr db' \<Rightarrow> (Redirect ''/admin?msg=ok'', s, db'))
             | _ \<Rightarrow> (Redirect ''/admin?msg=missing'', s, db)))"

definition post_admin_posts_delete :: "env \<Rightarrow> body option \<Rightarrow> session option \<Rightarrow> store \<Rightarrow> outcome" where
  "post_admin_posts_delete e req_body s db =
     requireAdmin s db
       (case req_body of
          None \<Rightarrow> (Thrown TypeError, s, db)
        | Some b \<Rightarrow>
            (case b ''slug'' of
               None \<Rightarrow> (Redirect ''/admin?msg=missing'', s, db)
             | Some slug \<Rightarrow>
                 if slug = [] then (Redirect ''/admin?msg=missing'', s, db)
                 else (Redirect ''/admin?msg=deleted'', s,
                       case delete_post e db slug of Inl err \<Rightarrow> db | Inr db' \<Rightarrow> db')))"

definition post_admin_messages_delete :: "env \<Rightarrow> body option \<Rightarrow> session option \<Rightarrow> store \<Rightarrow> outcome" where
  "post_admin_messages_delete e req_body s db =
     requireAdmin s db
       (case req_body of
          None \<Rightarrow> (Thrown TypeError, s, db)
        | Some b \<Rightarrow>
            (case b ''id'' of
               None \<Rightarrow> (Redirect ''/admin?msg=missing'', s, db)
             | Some idtext \<Rightarrow>
                 if idtext = [] then (Redirect ''/admin?msg=missing'', s, db)
                 else (Redirect ''/admin?msg=deleted'', s,
                       case delete_message e db idtext of Inl err \<Rightarrow> db | Inr db' \<Rightarrow> db')))"

fun handle :: "config \<Rightarrow> env \<Rightarrow> request \<Rightarrow> session option \<Rightarrow> store \<Rightarrow> outcome" where
  "handle cfg e GetHome s db = get_home e s db"
| "handle cfg e (GetPost slug) s db = get_post e slug s db"
| "handle cfg e (PostContact b) s db = post_api_contact e b s db"
| "handle cfg e GetFavicon s db = (End 204, s, db)"
| "handle cfg e (GetAdminLogin error) s db = get_admin_login cfg e error s db"
| "handle cfg e (PostAdminLogin b) s db = post_admin_login cfg b s db"
| "handle cfg e GetAdminLogout s db = get_admin_logout s db"
| "handle cfg e GetAdmin s db = get_admin e s db"
| "handle cfg e (PostAdminPosts b) s db = post_admin_posts e b s db"
| "handle cfg e (PostAdminPostsDelete b) s db = post_admin_posts_delete e b s db"
| "handle cfg e (PostAdminMessagesDelete b) s db = post_admin_messages_delete e b s db"

section \<open>The browser app: posts in local state\<close>





section \<open>What escaping means\<close>

text \<open>
  The table the claims speak of: each of the five special characters and its entity.
  It is the statement escapeHtml is compared with, not a part of the source.
\<close>

definition html_entity :: "char \<Rightarrow> string" where
  "html_entity c =
     (if c = CHR ''&'' then ''&amp;''
      else if c = CHR ''<'' then ''&lt;''
      else if c = CHR ''>'' then ''&gt;''
      else if c = CHR 0x22 then ''&quot;''
      else if c = CHR 0x27 then ''&#039;''
      else [c])"

text \<open>The five characters, and the four among them that open or close markup.\<close>

definition html_special :: "char set" where
  "html_special = {CHR ''<'', CHR ''>'', CHR ''&'', CHR 0x22, CHR 0x27}"

definition markup_chars :: "char set" where
  "markup_chars = {CHR ''<'', CHR ''>'', CHR 0x22, CHR 0x27}"

text \<open>The characters of which encodeURIComponent leaves none.\<close>

definition uri_escaped_chars :: "char set" where
  "uri_escaped_chars = {CHR ''<'', CHR ''>'', CHR ''&'', CHR 0x22}"

definition html_entities :: "string list" where
  "html_entities = [''&amp;'', ''&lt;'', ''&gt;'', ''&quot;'', ''&#039;'']"

text \<open>The pieces of markup that markdownToHtml writes.\<close>

definition markup_tags :: "string list" where
  "markup_tags =
     [''<h1>'', ''</h1>'', ''<h2>'', ''</h2>'', ''<h3>'', ''</h3>'',
      ''<strong>'', ''</strong>'', ''<em>'', ''</em>'',
      ''<a href=\"'', ''\" target=\"_blank\">'', ''</a>'',
      ''<p>'', ''</p>'', ''<br/>'']"

text \<open>
  A text in which a special character occurs only inside one of those pieces of markup
  or inside one of the five entities: \<open>markup_scan k\<close> reads a text of which the first
  \<open>k\<close> characters are the rest of such a piece.
\<close>

fun markup_scan :: "nat \<Rightarrow> string \<Rightarrow> bool" where
  "markup_scan k [] = (k = 0)"
| "markup_scan (Suc k) (c # cs) = markup_scan k cs"
| "markup_scan 0 (c # cs) =
     (if c \<in> html_special
      then list_ex (\<lambda>t. prefix t (c # cs) \<and> markup_scan (length t - 1) cs)
             (markup_tags @ html_entities)
      else markup_scan 0 cs)"

definition escaped_markup :: "string \<Rightarrow> bool" where
  "escaped_markup s = markup_scan 0 s"

text \<open>
  Such texts built up piece by piece, which is the form the proofs use: every text of
  \<open>markup_text\<close> passes \<open>markup_scan 0\<close> (lemma \<open>markup_text_scan\<close> below).
\<close>

inductive markup_text :: "string \<Rightarrow> bool" where
  empty: "markup_text []"
| plain: "c \<notin> html_special \<Longrightarrow> markup_text s \<Longrightarrow> markup_text (c # s)"
| literal: "t \<in> set (markup_tags @ html_entities) \<Longrightarrow> markup_text s \<Longrightarrow> markup_text (t @ s)"

text \<open>A character that is not special and occurs in no tag and no entity.\<close>

definition cut_char :: "char \<Rightarrow> bool" where
  "cut_char c \<longleftrightarrow> c \<notin> html_special \<and> (\<forall>t \<in> set (markup_tags @ html_entities). c \<notin> set t)"

text \<open>A row with its user-supplied texts emptied.\<close>

definition blank_post :: "post \<Rightarrow> post" where
  "blank_post p = p\<lparr>p_slug := [], p_title := [], p_excerpt := None, p_content := None\<rparr>"

definition blank_message :: "message \<Rightarrow> message" where
  "blank_message m = m\<lparr>m_name := [], m_email := [], m_message := []\<rparr>"

section \<open>Example inputs\<close>

definition demo_config :: config where
  "demo_config = \<lparr>ADMIN_EMAIL = ''admin@example.com'', ADMIN_PASSWORD = ''admin123''\<rparr>"

text \<open>An environment in which the statements of \<open>failing\<close> report an error.\<close>

definition demo_env :: "statement list \<Rightarrow> env" where
  "demo_env failing =
     \<lparr>now = ''2024-05-01 10:00:00'', year = 2024,
      fails = (\<lambda>st. st \<in> set failing),
      numeric = (\<lambda>t. if t = ''1'' then Some 1 else if t = ''2'' then Some 2 else None)\<rparr>"

definition admin_session :: "session option" where
  "admin_session = Some \<lparr>isAdmin = True, adminEmail = Some ''admin@example.com''\<rparr>"

definition visitor_session :: "session option" where
  "visitor_session = Some \<lparr>isAdmin = False, adminEmail = None\<rparr>"

definition empty_store :: store where
  "empty_store = \<lparr>messages = [], messages_seq = 0, posts = [], posts_seq = 0\<rparr>"

text \<open>A store with one post, of id 1, and one message, of id 1.\<close>

definition demo_store :: store where
  "demo_store =
     \<lparr>messages = [\<lparr>m_id = 1, m_name = ''Ann'', m_email = ''ann@example.com'',
                   m_message = ''hello'', m_created_at = ''2024-04-01 09:00:00''\<rparr>],
      messages_seq = 1,
      posts = [\<lparr>p_id = 1, p_slug = ''first'', p_title = ''First'', p_excerpt = Some ''intro'',
                p_content = Some ''text'', p_created_at = ''2024-04-02 09:00:00''\<rparr>],
      posts_seq = 1\<rparr>"

text \<open>A store whose newer post was inserted first.\<close>

definition two_posts_store :: store where
  "two_posts_store =
     \<lparr>messages = [], messages_seq = 0,
      posts = [\<lparr>p_id = 2, p_slug = ''later'', p_title = ''Later'', p_excerpt = None,
                p_content = Some ''b'', p_created_at = ''2024-04-05 08:00:00''\<rparr>,
               \<lparr>p_id = 1, p_slug = ''first'', p_title = ''First'', p_excerpt = None,
                p_content = Some ''a'', p_created_at = ''2024-04-02 09:00:00''\<rparr>,
               \<lparr>p_id = 3, p_slug = ''last'', p_title = ''Last'', p_excerpt = None,
                p_content = Some ''c'', p_created_at = ''2024-04-09 07:00:00''\<rparr>],
      posts_seq = 3\<rparr>"

text \<open>A store with one post, its slug with a single quote.\<close>

definition quote_store :: store where
  "quote_store =
     \<lparr>messages = [], messages_seq = 0,
      posts = [\<lparr>p_id = 1, p_slug = ''it's'', p_title = ''Hello'', p_excerpt = None,
                p_content = Some ''text'', p_created_at = ''2024-04-02 09:00:00''\<rparr>],
      posts_seq = 1\<rparr>"

text \<open>A post and a message with markup in every text, and a store that holds them.\<close>

definition hostile_post :: post where
  "hostile_post =
     \<lparr>p_id = 7, p_slug = ''a<b'', p_title = ''<b>T</b>'', p_excerpt = Some ''\"q\" & 'r' '',
      p_content = Some ''# <script>x</script>\<newline>**b** & [t](u)'',
      p_created_at = ''2024-04-02 09:00:00''\<rparr>"

definition hostile_store :: store where
  "hostile_store =
     \<lparr>messages = [\<lparr>m_id = 3, m_name = ''<i>'', m_email = ''a@b.c\"><img>'',
                   m_message = ''<script>alert('x')</script>'',
                   m_created_at = ''2024-04-01 09:00:00''\<rparr>],
      messages_seq = 3,
      posts = [hostile_post],
      posts_seq = 7\<rparr>"

section \<open>Properties of escapeHtml\<close>

lemma escapeHtml_JString: "escapeHtml (JString s) = Inr (escapeHtml_text s)"
  by (simp add: escapeHtml_def escapeHtml_text_def)

lemma falsy_iff:
  "falsy v \<longleftrightarrow>
     v = JUndefined \<or> v = JNull \<or> v = JBool False \<or> v = JNumber NaN \<or>
     (\<exists>neg. v = JNumber (Zero neg)) \<or> v = JString [] \<or> v = JBigInt 0"
  by (cases v rule: falsy.cases) auto

lemma js_String_total: "v \<noteq> JObject None \<Longrightarrow> \<exists>t. js_String v = Inr t"
  by (cases v rule: js_String.cases) auto

text \<open>
  Claim C9, as stated, fails: escapeHtml is not total over all JavaScript values. On an
  object whose conversion to a string throws, \<^verbatim>\<open>String(s)\<close> throws and so does escapeHtml.
\<close>

theorem escapeHtml_throws_counterexample:
  "\<not> (\<exists>t. escapeHtml (JObject None) = Inr t) \<and> escapeHtml (JObject None) = Inl TypeError"
  by (simp add: escapeHtml_def)

text \<open>
  Claim C9, amended: escapeHtml returns a string on every value other than an object
  whose string conversion throws; on every falsy value other than the number zero
  (\<open>undefined\<close>, \<open>null\<close>, \<open>false\<close>, \<open>NaN\<close>, the empty string, the BigInt zero) it
  returns the empty string; on the number zero it returns \<open>0\<close>; on every other value
  whose string form is \<open>t\<close> it returns \<open>t\<close> with the five characters replaced.
\<close>

theorem escapeHtml_total_on_convertible:
  "(v \<noteq> JObject None \<longrightarrow> (\<exists>t. escapeHtml v = Inr t)) \<and>
   (falsy v \<and> (\<forall>neg. v \<noteq> JNumber (Zero neg)) \<longrightarrow> escapeHtml v = Inr []) \<and>
   (falsy v \<longleftrightarrow> v = JUndefined \<or> v = JNull \<or> v = JBool False \<or> v = JNumber NaN \<or>
      (\<exists>neg. v = JNumber (Zero neg)) \<or> v = JString [] \<or> v = JBigInt 0) \<and>
   escapeHtml (JNumber (Zero neg)) = Inr ''0'' \<and>
   (\<not> falsy v \<and> js_String v = Inr t \<longrightarrow> escapeHtml v = Inr (escape_chain t))"
proof (intro conjI impI)
  assume "v \<noteq> JObject None"
  then obtain t where "js_String v = Inr t"
    using js_String_total by blast
  then show "\<exists>t. escapeHtml v = Inr t"
    by (simp add: escapeHtml_def)
next
  assume "falsy v \<and> (\<forall>neg. v \<noteq> JNumber (Zero neg))"
  then have "falsy v" and "\<not> strict_eq_zero v"
    by (cases v rule: strict_eq_zero.cases; simp)+
  then show "escapeHtml v = Inr []"
    by (simp add: escapeHtml_def)
next
  show "falsy v \<longleftrightarrow> v = JUndefined \<or> v = JNull \<or> v = JBool False \<or> v = JNumber NaN \<or>
      (\<exists>neg. v = JNumber (Zero neg)) \<or> v = JString [] \<or> v = JBigInt 0"
    by (rule falsy_iff)
next
  show "escapeHtml (JNumber (Zero neg)) = Inr ''0''"
    by (simp add: escapeHtml_def escape_chain_def replace_all_def)
next
  assume "\<not> falsy v \<and> js_String v = Inr t"
  then show "escapeHtml v = Inr (escape_chain t)"
    by (simp add: escapeHtml_def)
qed

theorem escapeHtml_total_on_convertible_witness:
  "escapeHtml JNull = Inr [] \<and> escapeHtml (JNumber NaN) = Inr [] \<and>
   escapeHtml (JBool True) = Inr ''true'' \<and>
   escapeHtml (JString ''a<b'') = Inr ''a&lt;b'' \<and>
   (\<exists>t. escapeHtml (JObject (Some ''[object Object]'')) = Inr t)"
  using escapeHtml_total_on_convertible [where v = JNull]
    escapeHtml_total_on_convertible [where v = "JNumber NaN"]
    escapeHtml_total_on_convertible [where v = "JBool True" and t = "''true''"]
    escapeHtml_total_on_convertible [where v = "JString ''a<b''" and t = "''a<b''"]
    escapeHtml_total_on_convertible [where v = "JObject (Some ''[object Object]'')"]
  by (simp add: escape_chain_def replace_all_def)

section \<open>Escaping in the rendered pages\<close>

lemma escape_chain_Cons: "escape_chain (x # s) = html_entity x @ escape_chain s"
  by (simp add: escape_chain_def replace_all_def html_entity_def)

lemma escape_chain_entities: "escape_chain s = concat (map html_entity s)"
proof (induction s)
  case Nil
  show ?case by (simp add: escape_chain_def replace_all_def)
next
  case (Cons x s)
  then show ?case by (simp add: escape_chain_Cons)
qed

lemma escapeHtml_text_entities: "escapeHtml_text s = concat (map html_entity s)"
  by (simp add: escapeHtml_text_def escape_chain_entities)


lemma literal_head:
  "t \<in> set (markup_tags @ html_entities) \<Longrightarrow> t \<noteq> [] \<and> hd t \<in> html_special"
  by (auto simp: markup_tags_def html_entities_def html_special_def)

lemma markup_append: "markup_text a \<Longrightarrow> markup_text b \<Longrightarrow> markup_text (a @ b)"
  by (induction a rule: markup_text.induct) (auto intro: markup_text.intros)

lemma markup_literal: "t \<in> set (markup_tags @ html_entities) \<Longrightarrow> markup_text t"
  using markup_text.literal [of t "[]"] markup_text.empty by simp

lemma markup_plain_text: "set s \<inter> html_special = {} \<Longrightarrow> markup_text s"
  by (induction s) (auto intro: markup_text.intros)

lemma markup_drop_head:
  assumes "markup_text (c # x)" and "c \<notin> html_special"
  shows "markup_text x"
  using assms
proof (cases rule: markup_text.cases)
  case plain
  then show ?thesis by simp
next
  case (literal t s)
  then have "t \<noteq> []" and "hd t \<in> html_special"
    using literal_head by blast+
  with literal assms(2) show ?thesis
    by (cases t) auto
qed

lemma markup_cut_aux:
  "markup_text x \<Longrightarrow> x = a @ d # b \<Longrightarrow> cut_char d \<Longrightarrow> markup_text a \<and> markup_text b"
proof (induction x arbitrary: a rule: markup_text.induct)
  case empty
  then show ?case by simp
next
  case (plain c s)
  show ?case
  proof (cases a)
    case Nil
    with plain show ?thesis by (auto intro: markup_text.empty)
  next
    case (Cons c' a')
    with plain.prems have "s = a' @ d # b" and "c' = c" by auto
    with plain.IH [of a'] plain.prems(2) plain.hyps(1) Cons show ?thesis
      by (auto intro: markup_text.plain)
  qed
next
  case (literal t s)
  from literal.prems(1) obtain us where
    "(t = a @ us \<and> us @ s = d # b) \<or> (t @ us = a \<and> s = us @ d # b)"
    by (auto simp: append_eq_append_conv2)
  then show ?case
  proof
    assume h: "t = a @ us \<and> us @ s = d # b"
    show ?thesis
    proof (cases us)
      case Nil
      with h have "t = a" and "s = d # b" by auto
      moreover have "markup_text t" using literal.hyps(1) by (rule markup_literal)
      moreover have "d \<notin> html_special" using literal.prems(2) by (simp add: cut_char_def)
      ultimately show ?thesis
        using literal.hyps(2) markup_drop_head by blast
    next
      case (Cons u us')
      with h have "d \<in> set t" by auto
      with literal.hyps(1) literal.prems(2) show ?thesis
        by (auto simp: cut_char_def)
    qed
  next
    assume h: "t @ us = a \<and> s = us @ d # b"
    then have "markup_text us \<and> markup_text b"
      using literal.IH [of us] literal.prems(2) by simp
    with h literal.hyps(1) show ?thesis
      by (auto intro: markup_text.literal)
  qed
qed

lemma markup_cut:
  "markup_text (a @ d # b) \<Longrightarrow> cut_char d \<Longrightarrow> markup_text a \<and> markup_text b"
  using markup_cut_aux by blast

lemma markup_cut_list:
  "ds \<noteq> [] \<Longrightarrow> \<forall>c \<in> set ds. cut_char c \<Longrightarrow> markup_text (a @ ds @ b) \<Longrightarrow>
     markup_text a \<and> markup_text b"
proof (induction ds arbitrary: a)
  case Nil
  then show ?case by simp
next
  case (Cons d ds)
  from Cons.prems have c: "markup_text a \<and> markup_text (ds @ b)"
    using markup_cut [of a d "ds @ b"] by simp
  show ?case
  proof (cases "ds = []")
    case True
    with c show ?thesis by simp
  next
    case False
    with Cons.IH [of "[]"] Cons.prems(2) c show ?thesis by simp
  qed
qed

lemma until_delim_split: "until_delim d x = Some (m, r) \<Longrightarrow> x = m @ d @ r"
proof (induction x arbitrary: m)
  case Nil
  then show ?case by (simp split: if_splits)
next
  case (Cons c cs)
  show ?case
  proof (cases "prefix d (c # cs)")
    case True
    with Cons.prems show ?thesis
      by (auto simp: prefix_def)
  next
    case False
    with Cons.prems obtain m' where "until_delim d cs = Some (m', r)" and "m = c # m'"
      by (auto split: if_splits option.splits)
    with Cons.IH show ?thesis by simp
  qed
qed

lemma cut_char_delims:
  "cut_char CHR ''*''" "cut_char CHR ''[''" "cut_char CHR '']''" "cut_char CHR ''(''"
  "cut_char CHR '')''" "cut_char backslash" "cut_char (CHR 0x0A)" "cut_char (CHR 0x0D)"
  "cut_char (CHR 0xE2)"
  by (simp_all add: cut_char_def html_special_def markup_tags_def html_entities_def backslash_def)

lemma wrap_pass_markup:
  assumes "\<forall>c \<in> set d. cut_char c" and "markup_text opn" and "markup_text cls"
  shows "markup_text (pre @ s) \<Longrightarrow> markup_text (pre @ wrap_pass d opn cls s)"
  using assms
proof (induction d opn cls s arbitrary: pre rule: wrap_pass.induct)
  case (1 d opn cls)
  then show ?case by simp
next
  case (2 d opn cls c cs)
  have step: "markup_text (pre @ c # wrap_pass d opn cls cs)"
    if ih: "\<And>pre. markup_text (pre @ cs) \<Longrightarrow> markup_text (pre @ wrap_pass d opn cls cs)"
  proof -
    have "markup_text ((pre @ [c]) @ cs)" using "2.prems"(1) by simp
    then have "markup_text ((pre @ [c]) @ wrap_pass d opn cls cs)" by (rule ih)
    then show ?thesis by simp
  qed
  show ?case
  proof (cases "d \<noteq> [] \<and> prefix d (c # cs)")
    case False
    then show ?thesis
      using step "2.IH"(3) "2.prems"(2-4) by auto
  next
    case True
    show ?thesis
    proof (cases "until_delim d (drop (length d) (c # cs))")
      case None
      then show ?thesis
        using True step "2.IH"(1) "2.prems"(2-4) by simp
    next
      case (Some mr)
      obtain m r where mr: "mr = (m, r)" by (cases mr)
      from True obtain x where x: "c # cs = d @ x" by (auto simp: prefix_def)
      with Some mr have "x = m @ d @ r"
        using until_delim_split [of d x m r] by simp
      with x "2.prems"(1) have all: "markup_text (pre @ d @ m @ d @ r)" by simp
      from True have dne: "d \<noteq> []" by simp
      from all have "markup_text pre" and rest: "markup_text (m @ d @ r)"
        using markup_cut_list [OF dne "2.prems"(2), of pre "m @ d @ r"] by simp_all
      moreover from rest have "markup_text m" and "markup_text r"
        using markup_cut_list [OF dne "2.prems"(2), of m r] by simp_all
      ultimately have "markup_text ((pre @ opn @ m @ cls) @ r)"
        using "2.prems"(3,4) by (intro markup_append)
      then have "markup_text ((pre @ opn @ m @ cls) @ wrap_pass d opn cls r)"
        using "2.IH"(2) [OF True Some mr [symmetric]] "2.prems"(2-4) by blast
      then show ?thesis
        using True Some mr by simp
    qed
  qed
qed

lemma link_pass_markup:
  "markup_text (pre @ s) \<Longrightarrow> markup_text (pre @ link_pass s)"
proof (induction s arbitrary: pre rule: link_pass.induct)
  case 1
  then show ?case by simp
next
  case (2 c cs)
  have step: "markup_text (pre @ c # link_pass cs)"
    if ih: "\<And>pre. markup_text (pre @ cs) \<Longrightarrow> markup_text (pre @ link_pass cs)"
  proof -
    have "markup_text ((pre @ [c]) @ cs)" using "2.prems" by simp
    then have "markup_text ((pre @ [c]) @ link_pass cs)" by (rule ih)
    then show ?thesis by simp
  qed
  show ?case
  proof (cases "c = CHR ''[''")
    case False
    then show ?thesis using step "2.IH"(4) by simp
  next
    case True
    show ?thesis
    proof (cases "until_delim '']('' cs")
      case None
      then show ?thesis using True step "2.IH"(1) by simp
    next
      case (Some tr)
      obtain t r1 where tr: "tr = (t, r1)" by (cases tr)
      show ?thesis
      proof (cases "until_delim '')'' r1")
        case None
        then show ?thesis using True Some tr step "2.IH"(2) by simp
      next
        case inner: (Some ur)
        obtain u r2 where ur: "ur = (u, r2)" by (cases ur)
        have "cs = t @ '']('' @ r1"
          using Some tr until_delim_split by blast
        moreover have "r1 = u @ '')'' @ r2"
          using inner ur until_delim_split by blast
        ultimately have "markup_text (pre @ CHR ''['' # t @ '']('' @ u @ '')'' @ r2)"
          using "2.prems" True by simp
        then have "markup_text pre" and a: "markup_text (t @ '']('' @ u @ '')'' @ r2)"
          using markup_cut [of pre "CHR ''[''"] cut_char_delims by blast+
        from a have "markup_text t" and b: "markup_text (u @ '')'' @ r2)"
          using markup_cut_list [of "''](''" t "u @ '')'' @ r2"] cut_char_delims by simp_all
        from b have "markup_text u" and "markup_text r2"
          using markup_cut_list [of "'')''" u r2] cut_char_delims by simp_all
        have lits: "markup_text ''<a href=\"''" "markup_text ''\" target=\"_blank\">''"
          "markup_text ''</a>''"
          by (rule markup_literal, simp add: markup_tags_def)+
        have "markup_text ((pre @ ''<a href=\"'' @ u @ ''\" target=\"_blank\">'' @ t @ ''</a>'') @ r2)"
          using \<open>markup_text pre\<close> \<open>markup_text t\<close> \<open>markup_text u\<close> \<open>markup_text r2\<close> lits
          by (intro markup_append)
        then have "markup_text ((pre @ ''<a href=\"'' @ u @ ''\" target=\"_blank\">'' @ t @ ''</a>'')
            @ link_pass r2)"
          using "2.IH"(3) [OF True Some tr [symmetric] inner ur [symmetric]] by blast
        then show ?thesis
          using True Some tr inner ur by simp
      qed
    qed
  qed
qed


lemma markup_drop_plain_prefix:
  "set m \<inter> html_special = {} \<Longrightarrow> markup_text (m @ x) \<Longrightarrow> markup_text x"
  by (induction m) (auto dest: markup_drop_head)

lemma span_line_append: "fst (span_line s) @ snd (span_line s) = s"
  by (induction s) (auto split: prod.splits)

lemma line_terminator_cases:
  assumes "0 < line_terminator r"
  shows "\<exists>t x. r = t @ x \<and> t \<noteq> [] \<and> length t = line_terminator r \<and> (\<forall>c \<in> set t. cut_char c)"
proof -
  have e: "cut_char (CHR 0x80)" "cut_char (CHR 0xA8)" "cut_char (CHR 0xA9)"
    by (simp_all add: cut_char_def html_special_def markup_tags_def html_entities_def)
  from assms obtain d r' where r: "r = d # r'"
    by (cases r) (auto simp: line_terminator_def)
  show ?thesis
  proof (cases "d = CHR 0x0A \<or> d = CHR 0x0D")
    case True
    then have "line_terminator r = 1" and "cut_char d"
      using r cut_char_delims by (auto simp: line_terminator_def)
    then show ?thesis
      using r by (intro exI [of _ "[d]"] exI [of _ r']) simp
  next
    case False
    with assms r have d: "d = CHR 0xE2"
      and t: "take 2 r' = [CHR 0x80, CHR 0xA8] \<or> take 2 r' = [CHR 0x80, CHR 0xA9]"
      and k: "line_terminator r = 3"
      by (auto simp: line_terminator_def split: if_splits)
    have "r' = take 2 r' @ drop 2 r'" by simp
    with t have "r = (d # take 2 r') @ drop 2 r'" using r by simp
    moreover have "\<forall>c \<in> set (d # take 2 r'). cut_char c"
      using t d e cut_char_delims by auto
    moreover have "length (d # take 2 r') = 3"
      using t by (auto simp del: length_take)
    ultimately show ?thesis
      using k by (intro exI [of _ "d # take 2 r'"] exI [of _ "drop 2 r'"]) simp
  qed
qed

lemma cut_char_plain: "cut_char c \<Longrightarrow> c \<notin> html_special"
  by (simp add: cut_char_def)

lemma heading_pass_markup:
  assumes "set marker \<inter> html_special = {}" and "markup_text opn" and "markup_text cls"
  shows "markup_text s \<Longrightarrow> markup_text (heading_pass marker opn cls s)"
  using assms
proof (induction marker opn cls s rule: heading_pass.induct)
  case (1 marker opn cls s)
  let ?line = "fst (span_line s)"
  let ?rest = "snd (span_line s)"
  let ?line' = "if prefix marker ?line then opn @ drop (length marker) ?line @ cls else ?line"
  have s: "s = ?line @ ?rest" by (simp add: span_line_append)
  have unfold: "heading_pass marker opn cls s =
      (if ?rest = [] then ?line'
       else ?line' @ take (line_terminator ?rest) ?rest @
            heading_pass marker opn cls (drop (line_terminator ?rest) ?rest))"
    by (subst heading_pass.simps) (simp add: Let_def)
  have line': "markup_text ?line'" if l: "markup_text ?line"
  proof (cases "prefix marker ?line")
    case True
    then obtain x where x: "?line = marker @ x" by (auto simp: prefix_def)
    with l "1.prems"(2) have "markup_text x"
      using markup_drop_plain_prefix by metis
    moreover have "drop (length marker) ?line = x" using x by simp
    ultimately have "markup_text (opn @ drop (length marker) ?line @ cls)"
      using "1.prems"(3,4) by (intro markup_append) simp_all
    with True show ?thesis by simp
  next
    case False
    with l show ?thesis by simp
  qed
  show ?case
  proof (cases "?rest = []")
    case True
    with s "1.prems"(1) have "markup_text ?line" by simp
    with True unfold line' show ?thesis by simp
  next
    case False
    then have "0 < line_terminator ?rest" by (rule span_line_terminator)
    then obtain t x where tx: "?rest = t @ x" "t \<noteq> []" "length t = line_terminator ?rest"
      "\<forall>c \<in> set t. cut_char c"
      using line_terminator_cases by blast
    from s tx(1) "1.prems"(1) have "markup_text (?line @ t @ x)" by simp
    then have l: "markup_text ?line" and x: "markup_text x"
      using markup_cut_list [OF tx(2) tx(4)] by blast+
    have t: "markup_text t"
      using tx(4) cut_char_plain by (intro markup_plain_text) auto
    have tk: "take (line_terminator ?rest) ?rest = t" "drop (line_terminator ?rest) ?rest = x"
      using tx(1,3) by simp_all
    have "markup_text (heading_pass marker opn cls (drop (line_terminator ?rest) ?rest))"
      using "1.IH" [OF refl refl refl False] x tk(2) "1.prems"(2-4) by simp
    then have "markup_text (?line' @ t @
        heading_pass marker opn cls (drop (line_terminator ?rest) ?rest))"
      using line' [OF l] t by (intro markup_append)
    with False unfold tk show ?thesis
      by simp
  qed
qed

lemma match_separator_split:
  assumes "match_separator s = Some r"
  shows "\<exists>ns. s = [backslash, CHR ''n'', backslash, CHR ''n''] @ ns @ r \<and> set ns \<subseteq> {CHR ''n''}"
proof -
  let ?P = "\<lambda>x. x = CHR ''n''"
  from assms obtain x where x: "s = [backslash, CHR ''n'', backslash, CHR ''n''] @ x"
    and r: "r = dropWhile ?P (drop 4 s)"
    by (auto simp: match_separator_def prefix_def split: if_splits)
  from x have "drop 4 s = x" by simp
  with r have "x = takeWhile ?P x @ r" by simp
  moreover have "set (takeWhile ?P x) \<subseteq> {CHR ''n''}"
    using set_takeWhileD by fastforce
  ultimately show ?thesis using x by metis
qed

lemma split_paragraphs_markup:
  "markup_text (acc @ s) \<Longrightarrow> \<forall>p \<in> set (split_paragraphs acc s). markup_text p"
proof (induction acc s rule: split_paragraphs.induct)
  case (1 acc)
  then show ?case by simp
next
  case (2 acc c cs)
  show ?case
  proof (cases "match_separator (c # cs)")
    case None
    with "2.IH"(1) "2.prems" show ?thesis by simp
  next
    case (Some r)
    then obtain ns where ns: "c # cs = [backslash, CHR ''n'', backslash, CHR ''n''] @ ns @ r"
      and n: "set ns \<subseteq> {CHR ''n''}"
      using match_separator_split by blast
    from "2.prems" ns have "markup_text (acc @ backslash # (CHR ''n'' # backslash # CHR ''n'' # ns @ r))"
      by simp
    then have acc: "markup_text acc"
      and "markup_text (CHR ''n'' # backslash # CHR ''n'' # ns @ r)"
      using markup_cut [of acc backslash "CHR ''n'' # backslash # CHR ''n'' # ns @ r"]
        cut_char_delims(6) by simp_all
    then have "markup_text ((CHR ''n'' # ns) @ r)"
      using markup_cut [of "[CHR ''n'']" backslash "CHR ''n'' # ns @ r"] cut_char_delims(6)
      by simp
    moreover have "set (CHR ''n'' # ns) \<inter> html_special = {}"
      using n by (auto simp: html_special_def)
    ultimately have "markup_text r"
      using markup_drop_plain_prefix by blast
    with "2.IH"(2) [OF Some] acc Some show ?thesis by simp
  qed
qed

lemma break_pass_markup:
  "markup_text (pre @ p) \<Longrightarrow> markup_text (pre @ break_pass p)"
proof (induction p arbitrary: pre rule: break_pass.induct)
  case (1 b n cs)
  show ?case
  proof (cases "b = backslash \<and> n = CHR ''n''")
    case True
    with "1.prems" have "markup_text pre" and "markup_text (CHR ''n'' # cs)"
      using markup_cut [of pre backslash "CHR ''n'' # cs"] cut_char_delims(6) by simp_all
    then have "markup_text cs"
      using markup_drop_head [of "CHR ''n''" cs] by (simp add: html_special_def)
    moreover have "markup_text ''<br/>''"
      by (rule markup_literal) (simp add: markup_tags_def)
    ultimately have "markup_text ((pre @ ''<br/>'') @ cs)"
      using \<open>markup_text pre\<close> by (intro markup_append)
    then have "markup_text ((pre @ ''<br/>'') @ break_pass cs)"
      using "1.IH"(1) [OF True] by blast
    with True show ?thesis by simp
  next
    case False
    have "markup_text ((pre @ [b]) @ n # cs)" using "1.prems" by simp
    then have "markup_text ((pre @ [b]) @ break_pass (n # cs))"
      using "1.IH"(2) [OF False] by blast
    with False show ?thesis by auto
  qed
qed simp_all

lemma paragraphs_markup:
  "\<forall>p \<in> set ps. markup_text p \<Longrightarrow>
     markup_text (concat (map (\<lambda>p. ''<p>'' @ break_pass p @ ''</p>'') ps))"
proof (induction ps)
  case Nil
  then show ?case by (simp add: markup_text.empty)
next
  case (Cons p ps)
  have "markup_text ''<p>''" "markup_text ''</p>''"
    by (rule markup_literal, simp add: markup_tags_def)+
  moreover have "markup_text (break_pass p)"
    using break_pass_markup [of "[]" p] Cons.prems by simp
  moreover have "markup_text (concat (map (\<lambda>p. ''<p>'' @ break_pass p @ ''</p>'') ps))"
    using Cons by simp
  ultimately have "markup_text (''<p>'' @ break_pass p @ ''</p>'' @
      concat (map (\<lambda>p. ''<p>'' @ break_pass p @ ''</p>'') ps))"
    by (intro markup_append)
  then show ?case by simp
qed

lemma markdownToHtml_markup:
  assumes "markup_text md"
  shows "markup_text (markdownToHtml md)"
proof (cases "md = []")
  case True
  then show ?thesis by (simp add: markdownToHtml_def markup_text.empty)
next
  case False
  have tags: "markup_text ''<h1>''" "markup_text ''</h1>''" "markup_text ''<h2>''"
    "markup_text ''</h2>''" "markup_text ''<h3>''" "markup_text ''</h3>''"
    "markup_text ''<strong>''" "markup_text ''</strong>''" "markup_text ''<em>''"
    "markup_text ''</em>''"
    by (rule markup_literal, simp add: markup_tags_def)+
  have h3: "markup_text (heading_pass ''### '' ''<h3>'' ''</h3>'' md)"
    by (rule heading_pass_markup [OF _ tags(5,6) assms]) (simp add: html_special_def)
  have h2: "markup_text (heading_pass ''## '' ''<h2>'' ''</h2>''
      (heading_pass ''### '' ''<h3>'' ''</h3>'' md))"
    by (rule heading_pass_markup [OF _ tags(3,4) h3]) (simp add: html_special_def)
  have "markup_text (heading_pass ''# '' ''<h1>'' ''</h1>'' (heading_pass ''## '' ''<h2>'' ''</h2>''
      (heading_pass ''### '' ''<h3>'' ''</h3>'' md)))"
    by (rule heading_pass_markup [OF _ tags(1,2) h2]) (simp add: html_special_def)
  then have "markup_text (bold_pass (heading_pass ''# '' ''<h1>'' ''</h1>''
      (heading_pass ''## '' ''<h2>'' ''</h2>'' (heading_pass ''### '' ''<h3>'' ''</h3>'' md))))"
    unfolding bold_pass_def
    using wrap_pass_markup [of "''**''" "''<strong>''" "''</strong>''" "[]"] tags cut_char_delims
    by simp
  then have "markup_text (em_pass (bold_pass (heading_pass ''# '' ''<h1>'' ''</h1>''
      (heading_pass ''## '' ''<h2>'' ''</h2>'' (heading_pass ''### '' ''<h3>'' ''</h3>'' md)))))"
    unfolding em_pass_def
    using wrap_pass_markup [of "''*''" "''<em>''" "''</em>''" "[]"] tags cut_char_delims
    by simp
  then have "markup_text (link_pass (em_pass (bold_pass (heading_pass ''# '' ''<h1>'' ''</h1>''
      (heading_pass ''## '' ''<h2>'' ''</h2>'' (heading_pass ''### '' ''<h3>'' ''</h3>'' md))))))"
    using link_pass_markup [of "[]"] by simp
  then have "\<forall>p \<in> set (split_paragraphs [] (link_pass (em_pass (bold_pass
      (heading_pass ''# '' ''<h1>'' ''</h1>'' (heading_pass ''## '' ''<h2>'' ''</h2>''
        (heading_pass ''### '' ''<h3>'' ''</h3>'' md))))))). markup_text p"
    using split_paragraphs_markup [of "[]"] by simp
  then show ?thesis
    using False by (simp add: markdownToHtml_def Let_def paragraphs_markup del: append.simps)
qed

lemma html_entity_markup: "markup_text (html_entity c @ s)" if "markup_text s"
proof (cases "c \<in> html_special")
  case True
  then have "html_entity c \<in> set (markup_tags @ html_entities)"
    by (auto simp: html_special_def html_entity_def html_entities_def)
  then show ?thesis using that by (rule markup_text.literal)
next
  case False
  then have "html_entity c = [c]"
    by (auto simp: html_special_def html_entity_def)
  with False that show ?thesis by (simp add: markup_text.plain)
qed

lemma escapeHtml_text_markup: "markup_text (escapeHtml_text s)"
  unfolding escapeHtml_text_entities
  by (induction s) (simp_all add: markup_text.empty html_entity_markup)

lemma markup_scan_skip: "markup_scan (length u) (u @ s) = markup_scan 0 s"
  by (induction u) simp_all

lemma markup_text_scan: "markup_text s \<Longrightarrow> markup_scan 0 s"
proof (induction s rule: markup_text.induct)
  case empty
  show ?case by simp
next
  case (plain c s)
  then show ?case by simp
next
  case (literal t s)
  from literal.hyps(1) have "t \<noteq> []" and "hd t \<in> html_special"
    using literal_head by blast+
  then obtain c u where t: "t = c # u" and c: "c \<in> html_special"
    by (cases t) auto
  have "prefix t (c # u @ s)" using t by simp
  moreover have "markup_scan (length t - 1) (u @ s)"
    using t literal.IH markup_scan_skip [of u s] by simp
  ultimately have "list_ex (\<lambda>t. prefix t (c # u @ s) \<and> markup_scan (length t - 1) (u @ s))
      (markup_tags @ html_entities)"
    using literal.hyps(1) unfolding list_ex_iff by blast
  with c t show ?case by simp
qed

lemma html_entity_no_markup_char: "c \<in> markup_chars \<Longrightarrow> c \<notin> set (html_entity x)"
  by (auto simp: markup_chars_def html_entity_def)

lemma escaped_no_markup_char: "c \<in> markup_chars \<Longrightarrow> c \<notin> set (escapeHtml_text s)"
  by (auto simp: escapeHtml_text_entities html_entity_no_markup_char)

lemma count_escaped: "c \<in> markup_chars \<Longrightarrow> count_list (escapeHtml_text s) c = 0"
  by (simp add: escaped_no_markup_char)

lemma count_amp_html_entity:
  "count_list (html_entity x) CHR ''&'' = (if x \<in> html_special then 1 else 0)"
  by (simp add: html_entity_def html_special_def)

lemma count_amp_escaped:
  "count_list (escapeHtml_text s) CHR ''&'' = length (filter (\<lambda>x. x \<in> html_special) s)"
  unfolding escapeHtml_text_entities
  by (induction s) (simp_all add: count_amp_html_entity del: count_list.simps)

lemma escapeHtml_text_Nil: "escapeHtml_text [] = []"
  by (simp add: escapeHtml_text_def)

lemma markdownToHtml_Nil: "markdownToHtml [] = []"
  by (simp add: markdownToHtml_def)

lemma encodeURIComponent_Nil: "encodeURIComponent [] = []"
  by (simp add: encodeURIComponent_def)

lemma mset_concat_map: "mset (concat (map f xs)) = sum_list (map (\<lambda>x. mset (f x)) xs)"
  by (simp add: mset_concat o_def)

lemma count_sum_list_mset:
  "count (sum_list (map f xs)) c = sum_list (map (\<lambda>x. count (f x) c) xs)"
  by (induction xs) simp_all

lemma mset_renderPage:
  "mset (renderPage y title body) = mset (renderPage y [] body) + mset (escapeHtml_text title)"
  by (simp add: renderPage_def escapeHtml_text_Nil del: append.simps mset.simps(2))

lemma mset_post_article:
  "mset (post_article row) =
     mset (post_article (blank_post row)) + mset (escapeHtml_text (p_title row)) +
     mset (escapeHtml_text (or_empty (p_excerpt row))) +
     mset (markdownToHtml (escapeHtml_text (or_empty (p_content row))))"
  by (simp add: post_article_def blank_post_def or_empty_def escapeHtml_text_Nil markdownToHtml_Nil
      del: append.simps mset.simps(2))

lemma mset_post_card:
  "mset (post_card p) =
     mset (post_card (blank_post p)) +
     (mset (encodeURIComponent (p_slug p)) + mset (escapeHtml_text (p_title p)) +
      mset (escapeHtml_text (or_empty (p_excerpt p))))"
  by (simp add: post_card_def blank_post_def or_empty_def escapeHtml_text_Nil
      encodeURIComponent_Nil del: append.simps mset.simps(2))

lemma mset_message_card:
  "mset (message_card m) =
     mset (message_card (blank_message m)) +
     (mset (escapeHtml_text (m_email m)) + mset (escapeHtml_text (m_message m)))"
  by (simp add: message_card_def blank_message_def escapeHtml_text_Nil
      del: append.simps mset.simps(2))

lemma mset_post_item:
  "mset (post_item p) =
     mset (post_item (blank_post p)) +
     (mset (escapeHtml_text (p_title p)) + mset (escapeHtml_text (p_slug p)) +
      mset (escapeHtml_text (p_slug p)))"
  by (simp add: post_item_def blank_post_def escapeHtml_text_Nil
      del: append.simps mset.simps(2))

lemma sum_list_mset_split:
  "sum_list (map (\<lambda>x. f x + (g x :: 'b multiset)) xs) =
     sum_list (map f xs) + sum_list (map g xs)"
  by (induction xs) (simp_all add: ac_simps)

lemma mset_renderHome:
  "mset (renderHome prs ps sess) =
     mset (renderHome prs (map blank_post ps) sess) +
     sum_list (map (\<lambda>p. mset (encodeURIComponent (p_slug p)) +
       mset (escapeHtml_text (p_title p)) +
       mset (escapeHtml_text (or_empty (p_excerpt p)))) ps)"
proof -
  have "sum_list (map (\<lambda>p. mset (post_card p)) ps) =
      sum_list (map (\<lambda>p. mset (post_card (blank_post p))) ps) +
      sum_list (map (\<lambda>p. mset (encodeURIComponent (p_slug p)) +
        mset (escapeHtml_text (p_title p)) +
        mset (escapeHtml_text (or_empty (p_excerpt p)))) ps)"
    by (subst mset_post_card) (rule sum_list_mset_split)
  then show ?thesis
    by (simp add: renderHome_def mset_concat_map o_def del: append.simps mset.simps(2))
qed

lemma mset_renderAdminDashboard:
  "mset (renderAdminDashboard ms ps) =
     mset (renderAdminDashboard (map blank_message ms) (map blank_post ps)) +
     sum_list (map (\<lambda>m. mset (escapeHtml_text (m_email m)) +
       mset (escapeHtml_text (m_message m))) ms) +
     sum_list (map (\<lambda>p. mset (escapeHtml_text (p_title p)) +
       mset (escapeHtml_text (p_slug p)) + mset (escapeHtml_text (p_slug p))) ps)"
proof -
  have m: "sum_list (map (\<lambda>m. mset (message_card m)) ms) =
      sum_list (map (\<lambda>m. mset (message_card (blank_message m))) ms) +
      sum_list (map (\<lambda>m. mset (escapeHtml_text (m_email m)) +
        mset (escapeHtml_text (m_message m))) ms)"
    by (subst mset_message_card) (rule sum_list_mset_split)
  have p: "sum_list (map (\<lambda>p. mset (post_item p)) ps) =
      sum_list (map (\<lambda>p. mset (post_item (blank_post p))) ps) +
      sum_list (map (\<lambda>p. mset (escapeHtml_text (p_title p)) +
        mset (escapeHtml_text (p_slug p)) + mset (escapeHtml_text (p_slug p))) ps)"
    by (subst mset_post_item) (rule sum_list_mset_split)
  show ?thesis
    using m p
    by (simp add: renderAdminDashboard_def mset_concat_map o_def
        del: append.simps mset.simps(2))
qed

lemma hex_digit_plain: "hex_digit d \<notin> html_special"
proof -
  have "hex_digit d \<in> set ''0123456789ABCDEF''"
    unfolding hex_digit_def by (rule nth_mem) simp
  then show ?thesis
    by (auto simp: html_special_def)
qed

lemma percent_encode_chars:
  "set (percent_encode x) \<inter> uri_escaped_chars = {}"
  "count_list (percent_encode x) (CHR 0x27) = count_list [x] (CHR 0x27)"
  using hex_digit_plain [of "of_char x div 16"] hex_digit_plain [of "of_char x"]
  by (auto simp: percent_encode_def uri_unreserved_def uri_escaped_chars_def html_special_def)

lemma encodeURIComponent_chars:
  "set (encodeURIComponent s) \<inter> uri_escaped_chars = {}"
  "count_list (encodeURIComponent s) (CHR 0x27) = count_list s (CHR 0x27)"
proof -
  show "set (encodeURIComponent s) \<inter> uri_escaped_chars = {}"
    using percent_encode_chars(1) by (auto simp: encodeURIComponent_def)
  show "count_list (encodeURIComponent s) (CHR 0x27) = count_list s (CHR 0x27)"
    unfolding encodeURIComponent_def
    by (induction s) (simp_all add: percent_encode_chars(2) del: count_list.simps(2),
        simp_all)
qed

lemma count_list_of_mset:
  "mset a = mset b + m \<Longrightarrow> count_list a c = count_list b c + count m c"
  by (metis count_mset plus_multiset.rep_eq)

lemma count_encodeURIComponent:
  "c \<in> markup_chars \<Longrightarrow>
     count_list (encodeURIComponent s) c = (if c = CHR 0x27 then count_list s c else 0)"
  using encodeURIComponent_chars [of s]
  by (auto simp: markup_chars_def uri_escaped_chars_def)

lemma count_renderPage:
  "c \<in> markup_chars \<Longrightarrow>
     count_list (renderPage y title body) c = count_list (renderPage y [] body) c"
  using count_list_of_mset [OF mset_renderPage, where c = c and y1 = y and title1 = title and body1 = body]
  by (simp add: count_mset count_escaped)

lemma count_post_article:
  "c \<in> markup_chars \<Longrightarrow>
     count_list (post_article row) c =
       count_list (post_article (blank_post row)) c +
       count_list (markdownToHtml (escapeHtml_text (or_empty (p_content row)))) c"
  using count_list_of_mset [OF mset_post_article [unfolded add.assoc], where c = c and row1 = row]
  by (simp add: count_mset count_escaped)

lemma count_renderHome:
  "c \<in> markup_chars \<Longrightarrow>
     count_list (renderHome prs ps sess) c =
       count_list (renderHome prs (map blank_post ps) sess) c +
       (if c = CHR 0x27 then sum_list (map (\<lambda>p. count_list (p_slug p) c) ps) else 0)"
  using count_list_of_mset [OF mset_renderHome, where c = c and prs1 = prs and ps1 = ps and sess1 = sess]
  by (simp add: count_mset count_escaped count_sum_list_mset count_encodeURIComponent)

lemma count_renderAdminDashboard:
  "c \<in> markup_chars \<Longrightarrow>
     count_list (renderAdminDashboard ms ps) c =
       count_list (renderAdminDashboard (map blank_message ms) (map blank_post ps)) c"
  using count_list_of_mset [OF mset_renderAdminDashboard [unfolded add.assoc], where c = c and ms1 = ms and ps1 = ps]
  by (simp add: count_mset count_escaped count_sum_list_mset)

text \<open>
  Claim C5, as stated, fails for the single quote: the home page writes the slug of a
  post into its link through encodeURIComponent, not through escapeHtml, and
  encodeURIComponent keeps the single quote. For a post stored with the slug \<open>it's\<close>,
  GET / sends a page whose card links to \<open>/post/it's\<close>: one single quote more than
  the same page has with the texts of the post empty.
\<close>

theorem home_slug_quote_counterexample:
  "fst (handle demo_config (demo_env []) GetHome None quote_store) =
     Send 200 (renderPage 2024 ''Home''
       (renderHome projects
          [\<lparr>p_id = 1, p_slug = ''it's'', p_title = ''Hello'', p_excerpt = None,
            p_content = None, p_created_at = ''2024-04-02 09:00:00''\<rparr>] None)) \<and>
   post_card \<lparr>p_id = 1, p_slug = ''it's'', p_title = ''Hello'', p_excerpt = None,
      p_content = None, p_created_at = ''2024-04-02 09:00:00''\<rparr> =
     ''<div class=\"card\" style=\"margin-bottom:.6rem\"><h3><a href=\"/post/it's\">Hello</a></h3><p class=\"muted\"></p></div>'' \<and>
   count_list (renderHome projects
       [\<lparr>p_id = 1, p_slug = ''it's'', p_title = ''Hello'', p_excerpt = None,
         p_content = None, p_created_at = ''2024-04-02 09:00:00''\<rparr>] None) (CHR 0x27) =
     count_list (renderHome projects
       [\<lparr>p_id = 1, p_slug = [], p_title = [], p_excerpt = None,
         p_content = None, p_created_at = ''2024-04-02 09:00:00''\<rparr>] None) (CHR 0x27) + 1"
proof -
  have "rows_or_empty (select_posts (demo_env []) quote_store) =
      [\<lparr>p_id = 1, p_slug = ''it's'', p_title = ''Hello'', p_excerpt = None,
            p_content = None, p_created_at = ''2024-04-02 09:00:00''\<rparr>]"
    by code_simp
  moreover have "year (demo_env []) = 2024"
    by code_simp
  ultimately have "fst (handle demo_config (demo_env []) GetHome None quote_store) =
     Send 200 (renderPage 2024 ''Home''
       (renderHome projects
          [\<lparr>p_id = 1, p_slug = ''it's'', p_title = ''Hello'', p_excerpt = None,
            p_content = None, p_created_at = ''2024-04-02 09:00:00''\<rparr>] None))"
    by (simp add: get_home_def)
  moreover have "post_card \<lparr>p_id = 1, p_slug = ''it's'', p_title = ''Hello'', p_excerpt = None,
      p_content = None, p_created_at = ''2024-04-02 09:00:00''\<rparr> =
     ''<div class=\"card\" style=\"margin-bottom:.6rem\"><h3><a href=\"/post/it's\">Hello</a></h3><p class=\"muted\"></p></div>''"
    by code_simp
  moreover have "count_list (renderHome projects
       [\<lparr>p_id = 1, p_slug = ''it's'', p_title = ''Hello'', p_excerpt = None,
         p_content = None, p_created_at = ''2024-04-02 09:00:00''\<rparr>] None) (CHR 0x27) =
     count_list (renderHome projects
       [\<lparr>p_id = 1, p_slug = [], p_title = [], p_excerpt = None,
         p_content = None, p_created_at = ''2024-04-02 09:00:00''\<rparr>] None) (CHR 0x27) + 1"
    using count_renderHome [where c = "CHR 0x27" and prs = projects and sess = None and ps =
        "[\<lparr>p_id = 1, p_slug = ''it's'', p_title = ''Hello'', p_excerpt = None,
           p_content = None, p_created_at = ''2024-04-02 09:00:00''\<rparr>]"]
    by (simp add: markup_chars_def blank_post_def)
  ultimately show ?thesis
    by blast
qed

text \<open>
  Claim C5, amended: escapeHtml replaces each of the five characters by its entity and
  leaves every other character as it is, so the escaped form of a text has none of
  \<open><\<close>, \<open>>\<close>, double quote and single quote, and as many \<open>&\<close> as the text has special
  characters; escaped and then passed through markdownToHtml, a text has a special
  character only inside an entity or inside a tag that markdownToHtml writes.
  encodeURIComponent leaves none of \<open><\<close>, \<open>>\<close>, \<open>&\<close> and double quote, and keeps every
  single quote. Every page is, character for character counted, the page with the user
  texts empty together with the user texts in their escaped form: the title given to
  renderPage; on a post page, which is what GET /post/:slug sends for the row found,
  the title, the excerpt and the content, escaped and then passed through
  markdownToHtml; on the home page, which GET / sends, the title and the excerpt of
  each post and its slug passed through encodeURIComponent; on the dashboard, which
  GET /admin sends to an admin session, the email and the text of each message and the
  title and, twice, the slug of each post. So each of \<open><\<close>, \<open>>\<close>, double
  quote and single quote occurs in a page as often as in the page with the texts
  empty, and besides only in the markup that markdownToHtml writes around the escaped
  content of a post and, for the single quote, in the slugs of the home page.
\<close>

theorem user_text_in_pages:
  "escapeHtml (JString t) = Inr (concat (map html_entity t)) \<and>
   set (escapeHtml_text t) \<inter> markup_chars = {} \<and>
   count_list (escapeHtml_text t) CHR ''&'' = length (filter (\<lambda>x. x \<in> html_special) t) \<and>
   escaped_markup (markdownToHtml (escapeHtml_text t)) \<and>
   set (encodeURIComponent t) \<inter> uri_escaped_chars = {} \<and>
   count_list (encodeURIComponent t) (CHR 0x27) = count_list t (CHR 0x27) \<and>
   mset (renderPage y title body) = mset (renderPage y [] body) + mset (escapeHtml_text title) \<and>
   mset (post_article row) =
     mset (post_article (blank_post row)) +
     mset (escapeHtml_text (p_title row)) +
     mset (escapeHtml_text (or_empty (p_excerpt row))) +
     mset (markdownToHtml (escapeHtml_text (or_empty (p_content row)))) \<and>
   mset (renderHome prs ps sess) =
     mset (renderHome prs (map blank_post ps) sess) +
     sum_list (map (\<lambda>p. mset (encodeURIComponent (p_slug p)) +
                         mset (escapeHtml_text (p_title p)) +
                         mset (escapeHtml_text (or_empty (p_excerpt p)))) ps) \<and>
   mset (renderAdminDashboard ms ps) =
     mset (renderAdminDashboard (map blank_message ms) (map blank_post ps)) +
     sum_list (map (\<lambda>m. mset (escapeHtml_text (m_email m)) +
                         mset (escapeHtml_text (m_message m))) ms) +
     sum_list (map (\<lambda>p. mset (escapeHtml_text (p_title p)) +
                         mset (escapeHtml_text (p_slug p)) +
                         mset (escapeHtml_text (p_slug p))) ps) \<and>
   (select_post e db slug = Inr (Some row) \<longrightarrow>
      handle cfg e (GetPost slug) sess db =
        (Send 200 (renderPage (year e) (p_title row) (post_article row)), sess, db)) \<and>
   fst (handle cfg e GetHome sess db) =
     Send 200 (renderPage (year e) ''Home''
       (renderHome projects (rows_or_empty (select_posts e db)) sess)) \<and>
   (is_admin adm \<longrightarrow>
      fst (handle cfg e GetAdmin adm db) =
        Send 200 (renderPage (year e) ''Admin Dashboard''
          (renderAdminDashboard (rows_or_empty (select_messages e db))
             (rows_or_empty (select_posts e db))))) \<and>
   (c \<in> markup_chars \<longrightarrow>
      count_list (renderPage y title body) c = count_list (renderPage y [] body) c \<and>
      count_list (post_article row) c =
        count_list (post_article (blank_post row)) c +
        count_list (markdownToHtml (escapeHtml_text (or_empty (p_content row)))) c \<and>
      count_list (renderHome prs ps sess) c =
        count_list (renderHome prs (map blank_post ps) sess) c +
        (if c = CHR 0x27 then sum_list (map (\<lambda>p. count_list (p_slug p) c) ps) else 0) \<and>
      count_list (renderAdminDashboard ms ps) c =
        count_list (renderAdminDashboard (map blank_message ms) (map blank_post ps)) c)"
proof -
  have "escapeHtml (JString t) = Inr (concat (map html_entity t))"
    by (simp add: escapeHtml_JString escapeHtml_text_entities)
  moreover have "set (escapeHtml_text t) \<inter> markup_chars = {}"
    using escaped_no_markup_char by blast
  moreover have "count_list (escapeHtml_text t) CHR ''&'' =
      length (filter (\<lambda>x. x \<in> html_special) t)"
    by (rule count_amp_escaped)
  moreover have "escaped_markup (markdownToHtml (escapeHtml_text t))"
    unfolding escaped_markup_def
    by (intro markup_text_scan markdownToHtml_markup escapeHtml_text_markup)
  moreover note encodeURIComponent_chars [of t]
  moreover note mset_renderPage [of y title body] mset_post_article [of row]
    mset_renderHome [of prs ps sess] mset_renderAdminDashboard [of ms ps]
  moreover have "select_post e db slug = Inr (Some row) \<longrightarrow>
      handle cfg e (GetPost slug) sess db =
        (Send 200 (renderPage (year e) (p_title row) (post_article row)), sess, db)"
    by (simp add: get_post_def)
  moreover have "fst (handle cfg e GetHome sess db) =
     Send 200 (renderPage (year e) ''Home''
       (renderHome projects (rows_or_empty (select_posts e db)) sess))"
    by (simp add: get_home_def)
  moreover have "is_admin adm \<longrightarrow>
      fst (handle cfg e GetAdmin adm db) =
        Send 200 (renderPage (year e) ''Admin Dashboard''
          (renderAdminDashboard (rows_or_empty (select_messages e db))
             (rows_or_empty (select_posts e db))))"
    by (simp add: get_admin_def requireAdmin_def)
  moreover note count_renderPage [of c y title body] count_post_article [of c row]
    count_renderHome [of c prs ps sess] count_renderAdminDashboard [of c ms ps]
  ultimately show ?thesis
    by blast
qed

theorem user_text_in_pages_witness:
  "escapeHtml (JString ''<script>alert('x')</script>'') =
     Inr ''&lt;script&gt;alert(&#039;x&#039;)&lt;/script&gt;'' \<and>
   select_post (demo_env []) hostile_store ''a<b'' = Inr (Some hostile_post) \<and>
   handle demo_config (demo_env []) (GetPost ''a<b'') None hostile_store =
     (Send 200 (renderPage 2024 ''<b>T</b>'' (post_article hostile_post)), None, hostile_store) \<and>
   post_article hostile_post =
     ''<article class=\"prose max-w-none\"><h1>&lt;b&gt;T&lt;/b&gt;</h1><p class=\"text-gray-600\">&quot;q&quot; &amp; &#039;r&#039; </p><div><p><h1>&lt;script&gt;x&lt;/script&gt;</h1>\<newline><strong>b</strong> &amp; <a href=\"u\" target=\"_blank\">t</a></p></div><p><a href=\"/\">Back</a></p></article>'' \<and>
   mset (post_article hostile_post) =
     mset (post_article (blank_post hostile_post)) +
     mset ''&lt;b&gt;T&lt;/b&gt;'' +
     mset ''&quot;q&quot; &amp; &#039;r&#039; '' +
     mset ''<p><h1>&lt;script&gt;x&lt;/script&gt;</h1>\<newline><strong>b</strong> &amp; <a href=\"u\" target=\"_blank\">t</a></p>'' \<and>
   escaped_markup (markdownToHtml (escapeHtml_text ''# <script>x</script>\<newline>**b** & [t](u)'')) \<and>
   CHR ''<'' \<in> markup_chars \<and>
   count_list (post_article hostile_post) CHR ''<'' =
     count_list (post_article (blank_post hostile_post)) CHR ''<'' + 8 \<and>
   fst (handle demo_config (demo_env []) GetHome None hostile_store) =
     Send 200 (renderPage 2024 ''Home''
       (renderHome projects [hostile_post\<lparr>p_content := None\<rparr>] None)) \<and>
   count_list (renderHome projects [hostile_post\<lparr>p_content := None\<rparr>] None) CHR ''<'' =
     count_list (renderHome projects [blank_post hostile_post] None) CHR ''<'' \<and>
   is_admin admin_session \<and>
   fst (handle demo_config (demo_env []) GetAdmin admin_session hostile_store) =
     Send 200 (renderPage 2024 ''Admin Dashboard''
       (renderAdminDashboard (messages hostile_store)
          [hostile_post\<lparr>p_content := None\<rparr>])) \<and>
   count_list (renderAdminDashboard (messages hostile_store)
       [hostile_post\<lparr>p_content := None\<rparr>]) CHR ''<'' =
     count_list (renderAdminDashboard (map blank_message (messages hostile_store))
       [blank_post hostile_post]) CHR ''<''"
proof -
  note t = user_text_in_pages [where t = "''<script>alert('x')</script>''"
      and row = hostile_post and e = "demo_env []" and db = hostile_store
      and slug = "''a<b''" and cfg = demo_config and sess = None and c = "CHR ''<''"
      and prs = projects and ps = "[hostile_post\<lparr>p_content := None\<rparr>]"
      and ms = "messages hostile_store" and adm = admin_session]
  note u = user_text_in_pages [where t = "''# <script>x</script>\<newline>**b** & [t](u)''"]
  have c: "CHR ''<'' \<in> markup_chars"
    by (simp add: markup_chars_def)
  have sel: "select_post (demo_env []) hostile_store ''a<b'' = Inr (Some hostile_post)"
    by code_simp
  have yr: "year (demo_env []) = 2024"
    by code_simp
  have adm: "is_admin admin_session"
    by (simp add: is_admin_def admin_session_def)
  have ps: "rows_or_empty (select_posts (demo_env []) hostile_store) =
      [hostile_post\<lparr>p_content := None\<rparr>]"
    by code_simp
  have ms: "rows_or_empty (select_messages (demo_env []) hostile_store) = messages hostile_store"
    by code_simp
  have bl: "blank_post (hostile_post\<lparr>p_content := None\<rparr>) = blank_post hostile_post"
    by (simp add: blank_post_def)
  have e1: "p_title hostile_post = ''<b>T</b>''"
    by (simp add: hostile_post_def)
  have e2: "escapeHtml_text ''<b>T</b>'' = ''&lt;b&gt;T&lt;/b&gt;''"
    by code_simp
  have e3: "escapeHtml_text (or_empty (p_excerpt hostile_post)) =
      ''&quot;q&quot; &amp; &#039;r&#039; ''"
    by code_simp
  have e4: "markdownToHtml (escapeHtml_text (or_empty (p_content hostile_post))) =
      ''<p><h1>&lt;script&gt;x&lt;/script&gt;</h1>\<newline><strong>b</strong> &amp; <a href=\"u\" target=\"_blank\">t</a></p>''"
    by code_simp
  have "escapeHtml (JString ''<script>alert('x')</script>'') =
      Inr (concat (map html_entity ''<script>alert('x')</script>''))"
    using t by (rule conjunct1)
  then have "escapeHtml (JString ''<script>alert('x')</script>'') =
     Inr ''&lt;script&gt;alert(&#039;x&#039;)&lt;/script&gt;''"
    by (simp add: html_entity_def)
  moreover note sel
  moreover have "handle demo_config (demo_env []) (GetPost ''a<b'') None hostile_store =
     (Send 200 (renderPage 2024 ''<b>T</b>'' (post_article hostile_post)), None, hostile_store)"
    using t sel unfolding yr e1 by blast
  moreover have "post_article hostile_post =
     ''<article class=\"prose max-w-none\"><h1>&lt;b&gt;T&lt;/b&gt;</h1><p class=\"text-gray-600\">&quot;q&quot; &amp; &#039;r&#039; </p><div><p><h1>&lt;script&gt;x&lt;/script&gt;</h1>\<newline><strong>b</strong> &amp; <a href=\"u\" target=\"_blank\">t</a></p></div><p><a href=\"/\">Back</a></p></article>''"
    by code_simp
  moreover have "mset (post_article hostile_post) =
     mset (post_article (blank_post hostile_post)) +
     mset ''&lt;b&gt;T&lt;/b&gt;'' +
     mset ''&quot;q&quot; &amp; &#039;r&#039; '' +
     mset ''<p><h1>&lt;script&gt;x&lt;/script&gt;</h1>\<newline><strong>b</strong> &amp; <a href=\"u\" target=\"_blank\">t</a></p>''"
    using t unfolding e1 e2 e3 e4 by blast
  moreover have "escaped_markup
      (markdownToHtml (escapeHtml_text ''# <script>x</script>\<newline>**b** & [t](u)''))"
    using u by blast
  moreover note c
  moreover have "count_list (post_article hostile_post) CHR ''<'' =
     count_list (post_article (blank_post hostile_post)) CHR ''<'' + 8"
  proof -
    have "count_list (post_article hostile_post) CHR ''<'' =
        count_list (post_article (blank_post hostile_post)) CHR ''<'' +
        count_list ''<p><h1>&lt;script&gt;x&lt;/script&gt;</h1>\<newline><strong>b</strong> &amp; <a href=\"u\" target=\"_blank\">t</a></p>'' CHR ''<''"
      using t c unfolding e4 by blast
    then show ?thesis
      by simp
  qed
  moreover have "fst (handle demo_config (demo_env []) GetHome None hostile_store) =
     Send 200 (renderPage 2024 ''Home''
       (renderHome projects [hostile_post\<lparr>p_content := None\<rparr>] None))"
    using t unfolding yr ps by blast
  moreover have "count_list (renderHome projects [hostile_post\<lparr>p_content := None\<rparr>] None) CHR ''<'' =
     count_list (renderHome projects [blank_post hostile_post] None) CHR ''<''"
  proof -
    have "count_list (renderHome projects [hostile_post\<lparr>p_content := None\<rparr>] None) CHR ''<'' =
        count_list (renderHome projects
          (map blank_post [hostile_post\<lparr>p_content := None\<rparr>]) None) CHR ''<'' +
        (if CHR ''<'' = CHR 0x27
         then sum_list (map (\<lambda>p. count_list (p_slug p) CHR ''<'')
           [hostile_post\<lparr>p_content := None\<rparr>]) else 0)"
      using t c by blast
    then show ?thesis
      by (simp add: bl)
  qed
  moreover note adm
  moreover have "fst (handle demo_config (demo_env []) GetAdmin admin_session hostile_store) =
     Send 200 (renderPage 2024 ''Admin Dashboard''
       (renderAdminDashboard (messages hostile_store)
          [hostile_post\<lparr>p_content := None\<rparr>]))"
    using t adm unfolding yr ps ms by blast
  moreover have "count_list (renderAdminDashboard (messages hostile_store)
       [hostile_post\<lparr>p_content := None\<rparr>]) CHR ''<'' =
     count_list (renderAdminDashboard (map blank_message (messages hostile_store))
       [blank_post hostile_post]) CHR ''<''"
  proof -
    have "count_list (renderAdminDashboard (messages hostile_store)
         [hostile_post\<lparr>p_content := None\<rparr>]) CHR ''<'' =
       count_list (renderAdminDashboard (map blank_message (messages hostile_store))
         (map blank_post [hostile_post\<lparr>p_content := None\<rparr>])) CHR ''<''"
      using t c by blast
    then show ?thesis
      by (simp add: bl)
  qed
  ultimately show ?thesis
    by blast
qed

section \<open>markdownToHtml on newlines\<close>

text \<open>
  Claim C6 holds for the headings, the bold and italic spans and the links, but not for
  the paragraphs: a blank line (two newline characters) does not split the text into
  two \<open>p\<close> elements and a single newline is not rendered as \<open>br\<close>, because the two
  regular expressions look for a backslash followed by \<open>n\<close>.
\<close>

theorem markdownToHtml_newlines_kept:
  "markdownToHtml ''a\<newline>\<newline>b'' = ''<p>a\<newline>\<newline>b</p>'' \<and>
   markdownToHtml ''a\<newline>b'' = ''<p>a\<newline>b</p>'' \<and>
   markdownToHtml (''a'' @ [backslash] @ ''n'' @ [backslash] @ ''nb'' @ [backslash] @ ''nc'') =
     ''<p>a</p><p>b<br/>c</p>'' \<and>
   markdownToHtml ''# T\<newline>## U\<newline>### V'' =
     ''<p><h1>T</h1>\<newline><h2>U</h2>\<newline><h3>V</h3></p>'' \<and>
   markdownToHtml ''**x** *y* [t](u)'' =
     ''<p><strong>x</strong> <em>y</em> <a href=\"u\" target=\"_blank\">t</a></p>''"
  by code_simp

section \<open>Contact messages\<close>

lemma fold_max_ge: "seq \<le> fold max ids (seq :: int)"
  by (induction ids arbitrary: seq) (auto intro: order_trans [OF max.cobounded2])

lemma fold_max_mem: "i \<in> set ids \<Longrightarrow> i \<le> fold max ids (seq :: int)"
proof (induction ids arbitrary: seq)
  case Nil
  then show ?case by simp
next
  case (Cons a ids)
  show ?case
  proof (cases "i = a")
    case True
    have "a \<le> max a seq" by simp
    also have "max a seq \<le> fold max ids (max a seq)" by (rule fold_max_ge)
    finally show ?thesis using True by simp
  next
    case False
    with Cons show ?thesis by simp
  qed
qed

lemma next_rowid_fresh: "i \<in> set ids \<Longrightarrow> i < next_rowid seq ids"
  using fold_max_mem [of i ids seq] by (simp add: next_rowid_def)

text \<open>
  Claim C4, as stated, fails: a \<^verbatim>\<open>POST /api/contact\<close> for which no body was parsed has
  all three fields missing, and the handler throws on destructuring \<^verbatim>\<open>req.body\<close>
  (a 500 from Express) instead of answering 400.
\<close>

theorem contact_no_body_counterexample:
  "handle demo_config (demo_env []) (PostContact None) None empty_store =
     (Thrown TypeError, None, empty_store)"
  by (simp add: post_api_contact_def)

text \<open>
  Claim C4, amended: for a \<^verbatim>\<open>POST /api/contact\<close> whose body was parsed, when any of the
  fields name, email and message is missing from it (or is the empty text), the
  response has status 400 and the store is unchanged. When no body was parsed
  (\<^verbatim>\<open>req.body\<close> undefined), the handler throws a TypeError before it runs any
  statement, and the store is unchanged as well.
\<close>

theorem contact_missing_field_no_row:
  "(b ''name'' = None \<or> b ''email'' = None \<or> b ''message'' = None \<or>
    b ''name'' = Some [] \<or> b ''email'' = Some [] \<or> b ''message'' = Some [] \<longrightarrow>
      handle cfg e (PostContact (Some b)) s db =
        (Json 400 (JsonError ''name, email and message required''), s, db)) \<and>
   handle cfg e (PostContact None) s db = (Thrown TypeError, s, db)"
  by (auto simp: post_api_contact_def split: option.splits)

theorem contact_missing_field_no_row_witness:
  "handle demo_config (demo_env [])
       (PostContact (Some [''name'' \<mapsto> ''Ann'', ''message'' \<mapsto> ''hello''])) None demo_store =
     (Json 400 (JsonError ''name, email and message required''), None, demo_store) \<and>
   handle demo_config (demo_env []) (PostContact None) None demo_store =
     (Thrown TypeError, None, demo_store)"
  using contact_missing_field_no_row [of "[''name'' \<mapsto> ''Ann'', ''message'' \<mapsto> ''hello'']"
      demo_config "demo_env []" None demo_store]
  by simp

text \<open>
  Claim C3, as stated, fails: with the three fields present and non-empty, no row is
  inserted and the response is a 500 when SQLite reports an error for the INSERT.
\<close>

theorem contact_store_error_counterexample:
  "handle demo_config (demo_env [InsertMessage])
       (PostContact (Some [''name'' \<mapsto> ''Ann'', ''email'' \<mapsto> ''ann@example.com'',
                     ''message'' \<mapsto> ''hello''])) None empty_store =
     (Json 500 (JsonError ''db error''), None, empty_store)"
  by (simp add: post_api_contact_def insert_message_def demo_env_def)

text \<open>
  Claim C3, amended: for a \<^verbatim>\<open>POST /api/contact\<close> whose body has non-empty name, email
  and message, unless SQLite reports an error for the INSERT, exactly one row is
  appended to the messages table, with the fields of the body and a rowid that no row
  of the table has, and the response is the success JSON object with that rowid. When
  SQLite reports an error, the response is a 500 and the store is unchanged.
\<close>

theorem contact_inserts_one_row:
  assumes "b ''name'' = Some name" and "b ''email'' = Some email"
    and "b ''message'' = Some message"
    and "name \<noteq> []" and "email \<noteq> []" and "message \<noteq> []"
  shows "handle cfg e (PostContact (Some b)) s db =
           (if fails e InsertMessage then (Json 500 (JsonError ''db error''), s, db)
            else (Json 200 (JsonSuccess (next_rowid (messages_seq db) (map m_id (messages db)))), s,
                  db\<lparr>messages := messages db @
                       [\<lparr>m_id = next_rowid (messages_seq db) (map m_id (messages db)),
                         m_name = name, m_email = email, m_message = message,
                         m_created_at = now e\<rparr>],
                     messages_seq := next_rowid (messages_seq db) (map m_id (messages db))\<rparr>)) \<and>
         next_rowid (messages_seq db) (map m_id (messages db)) \<notin> m_id ` set (messages db)"
proof
  show "handle cfg e (PostContact (Some b)) s db =
           (if fails e InsertMessage then (Json 500 (JsonError ''db error''), s, db)
            else (Json 200 (JsonSuccess (next_rowid (messages_seq db) (map m_id (messages db)))), s,
                  db\<lparr>messages := messages db @
                       [\<lparr>m_id = next_rowid (messages_seq db) (map m_id (messages db)),
                         m_name = name, m_email = email, m_message = message,
                         m_created_at = now e\<rparr>],
                     messages_seq := next_rowid (messages_seq db) (map m_id (messages db))\<rparr>))"
    using assms by (simp add: post_api_contact_def insert_message_def Let_def)
  show "next_rowid (messages_seq db) (map m_id (messages db)) \<notin> m_id ` set (messages db)"
    using next_rowid_fresh [of _ "map m_id (messages db)" "messages_seq db"] by auto
qed

theorem contact_inserts_one_row_witness:
  "handle demo_config (demo_env [])
       (PostContact (Some [''name'' \<mapsto> ''Bob'', ''email'' \<mapsto> ''bob@example.com'',
                     ''message'' \<mapsto> ''hi''])) None demo_store =
     (Json 200 (JsonSuccess 2), None,
      demo_store\<lparr>messages := messages demo_store @
           [\<lparr>m_id = 2, m_name = ''Bob'', m_email = ''bob@example.com'', m_message = ''hi'',
             m_created_at = ''2024-05-01 10:00:00''\<rparr>],
         messages_seq := 2\<rparr>)"
  using contact_inserts_one_row [of "[''name'' \<mapsto> ''Bob'', ''email'' \<mapsto> ''bob@example.com'',
      ''message'' \<mapsto> ''hi'']" "''Bob''" "''bob@example.com''" "''hi''"
      demo_config "demo_env []" None demo_store]
  by (simp add: demo_env_def demo_store_def next_rowid_def)

section \<open>Posts\<close>

text \<open>
  Claim C1, as stated, fails: the id of the post is not preserved. The post stored
  under the slug \<open>first\<close> has id 1; after an upsert with that slug the row under the slug
  has id 2.
\<close>

theorem upsert_changes_id_counterexample:
  "map p_id (filter (\<lambda>p. p_slug p = ''first'') (posts demo_store)) = [1] \<and>
   map p_id (filter (\<lambda>p. p_slug p = ''first'')
     (posts (snd (snd (handle demo_config (demo_env [])
        (PostAdminPosts (Some [''slug'' \<mapsto> ''first'', ''title'' \<mapsto> ''Second'',
                         ''excerpt'' \<mapsto> ''new'', ''content'' \<mapsto> ''more'']))
        admin_session demo_store))))) = [2]"
  by (simp add: post_admin_posts_def requireAdmin_def is_admin_def admin_session_def
      replace_post_def demo_env_def demo_store_def next_rowid_def)

text \<open>
  Claim C1, amended: for every post already stored with slug \<open>s\<close>, a
  \<^verbatim>\<open>POST /admin/posts\<close> from an admin session with slug \<open>s\<close> and non-empty title and
  content, for which SQLite reports no error, leaves exactly one row with slug \<open>s\<close>; it
  has the submitted title, excerpt and content, and the other rows are as before. The
  id is not preserved: the row is deleted and inserted anew, with an id larger than the
  old one (and than every id of the table) and with the current timestamp.
\<close>

theorem upsert_replaces_row:
  assumes "is_admin s"
    and "b ''slug'' = Some slug" and "b ''title'' = Some title"
    and "b ''content'' = Some content"
    and "slug \<noteq> []" and "title \<noteq> []" and "content \<noteq> []"
    and "\<not> fails e ReplacePost"
    and "old \<in> set (posts db)" and "p_slug old = slug"
  shows "\<exists>db'. handle cfg e (PostAdminPosts (Some b)) s db = (Redirect ''/admin?msg=ok'', s, db') \<and>
           filter (\<lambda>p. p_slug p = slug) (posts db') =
             [\<lparr>p_id = next_rowid (posts_seq db) (map p_id (posts db)), p_slug = slug,
               p_title = title, p_excerpt = b ''excerpt'', p_content = Some content,
               p_created_at = now e\<rparr>] \<and>
           filter (\<lambda>p. p_slug p \<noteq> slug) (posts db') = filter (\<lambda>p. p_slug p \<noteq> slug) (posts db) \<and>
           p_id old < next_rowid (posts_seq db) (map p_id (posts db))"
proof -
  let ?i = "next_rowid (posts_seq db) (map p_id (posts db))"
  let ?row = "\<lparr>p_id = ?i, p_slug = slug, p_title = title, p_excerpt = b ''excerpt'',
               p_content = Some content, p_created_at = now e\<rparr>"
  let ?db' = "db\<lparr>posts := filter (\<lambda>p. p_slug p \<noteq> slug) (posts db) @ [?row], posts_seq := ?i\<rparr>"
  have "handle cfg e (PostAdminPosts (Some b)) s db = (Redirect ''/admin?msg=ok'', s, ?db')"
    using assms(1-8)
    by (simp add: post_admin_posts_def requireAdmin_def replace_post_def Let_def)
  moreover have "filter (\<lambda>p. p_slug p = slug) (posts ?db') = [?row]"
    by (simp add: filter_empty_conv)
  moreover have "filter (\<lambda>p. p_slug p \<noteq> slug) (posts ?db') =
      filter (\<lambda>p. p_slug p \<noteq> slug) (posts db)"
    by simp
  moreover have "p_id old < ?i"
    using assms(9) by (intro next_rowid_fresh) simp
  ultimately show ?thesis by blast
qed

theorem upsert_replaces_row_witness:
  "\<exists>db'. handle demo_config (demo_env [])
        (PostAdminPosts (Some [''slug'' \<mapsto> ''first'', ''title'' \<mapsto> ''Second'',
                         ''excerpt'' \<mapsto> ''new'', ''content'' \<mapsto> ''more'']))
        admin_session demo_store = (Redirect ''/admin?msg=ok'', admin_session, db') \<and>
      filter (\<lambda>p. p_slug p = ''first'') (posts db') =
        [\<lparr>p_id = 2, p_slug = ''first'', p_title = ''Second'', p_excerpt = Some ''new'',
          p_content = Some ''more'', p_created_at = ''2024-05-01 10:00:00''\<rparr>]"
  using upsert_replaces_row [of admin_session
      "[''slug'' \<mapsto> ''first'', ''title'' \<mapsto> ''Second'', ''excerpt'' \<mapsto> ''new'',
        ''content'' \<mapsto> ''more'']"
      "''first''" "''Second''" "''more''" "demo_env []"
      "\<lparr>p_id = 1, p_slug = ''first'', p_title = ''First'', p_excerpt = Some ''intro'',
        p_content = Some ''text'', p_created_at = ''2024-04-02 09:00:00''\<rparr>"
      demo_store demo_config]
  by (auto simp: is_admin_def admin_session_def demo_env_def demo_store_def next_rowid_def)

section \<open>Deleting what is not there\<close>

text \<open>
  Claim C7: for a slug that no post has, \<^verbatim>\<open>POST /admin/posts/delete\<close> leaves the store
  unchanged and responds with a redirect; for an id that no message has,
  \<^verbatim>\<open>POST /admin/messages/delete\<close> does the same. This holds for every session and
  whether or not SQLite reports an error.
\<close>

theorem delete_absent_is_noop:
  "(b ''slug'' = Some slug \<and> (\<forall>p \<in> set (posts db). p_slug p \<noteq> slug) \<longrightarrow>
      (\<exists>url. handle cfg e (PostAdminPostsDelete (Some b)) s db = (Redirect url, s, db))) \<and>
   (b ''id'' = Some idtext \<and> (\<forall>m \<in> set (messages db). numeric e idtext \<noteq> Some (m_id m)) \<longrightarrow>
      (\<exists>url. handle cfg e (PostAdminMessagesDelete (Some b)) s db = (Redirect url, s, db)))"
proof (intro conjI impI)
  assume a: "b ''slug'' = Some slug \<and> (\<forall>p \<in> set (posts db). p_slug p \<noteq> slug)"
  then have "filter (\<lambda>p. p_slug p \<noteq> slug) (posts db) = posts db"
    by (simp add: filter_id_conv)
  with a show "\<exists>url. handle cfg e (PostAdminPostsDelete (Some b)) s db = (Redirect url, s, db)"
    by (simp add: post_admin_posts_delete_def requireAdmin_def delete_post_def)
next
  assume a: "b ''id'' = Some idtext \<and>
    (\<forall>m \<in> set (messages db). numeric e idtext \<noteq> Some (m_id m))"
  then have "filter (\<lambda>m. numeric e idtext \<noteq> Some (m_id m)) (messages db) = messages db"
    by (simp add: filter_id_conv)
  with a show "\<exists>url. handle cfg e (PostAdminMessagesDelete (Some b)) s db = (Redirect url, s, db)"
    by (simp add: post_admin_messages_delete_def requireAdmin_def delete_message_def)
qed

theorem delete_absent_is_noop_witness:
  "(\<exists>url. handle demo_config (demo_env []) (PostAdminPostsDelete (Some [''slug'' \<mapsto> ''second'']))
       admin_session demo_store = (Redirect url, admin_session, demo_store)) \<and>
   (\<exists>url. handle demo_config (demo_env []) (PostAdminMessagesDelete (Some [''id'' \<mapsto> ''2'']))
       admin_session demo_store = (Redirect url, admin_session, demo_store))"
  using delete_absent_is_noop [of "[''slug'' \<mapsto> ''second'']" "''second''" demo_store
      demo_config "demo_env []" admin_session]
    delete_absent_is_noop [of "[''id'' \<mapsto> ''2'']" _ demo_store
      demo_config "demo_env []" admin_session "''2''"]
  by (simp add: demo_store_def demo_env_def)

section \<open>The session guard\<close>

text \<open>
  Claim C2: when the session is absent or its \<open>isAdmin\<close> is not true, \<^verbatim>\<open>GET /admin\<close>,
  \<^verbatim>\<open>POST /admin/posts\<close>, \<^verbatim>\<open>POST /admin/posts/delete\<close> and
  \<^verbatim>\<open>POST /admin/messages/delete\<close> respond with a redirect to \<^verbatim>\<open>/admin/login\<close> (not with
  a thrown exception) and leave the session and the store as they were. Hence no
  request at all from such a session changes the posts table or removes a message.
\<close>

theorem admin_routes_need_admin_session:
  "(is_admin s \<longleftrightarrow> (\<exists>x. s = Some x \<and> isAdmin x)) \<and>
   (\<not> is_admin s \<and>
      r \<in> {GetAdmin, PostAdminPosts b, PostAdminPostsDelete b, PostAdminMessagesDelete b} \<longrightarrow>
      handle cfg e r s db = (Redirect ''/admin/login'', s, db)) \<and>
   (\<not> is_admin s \<longrightarrow>
      posts (snd (snd (handle cfg e q s db))) = posts db \<and>
      set (messages db) \<subseteq> set (messages (snd (snd (handle cfg e q s db)))))"
proof (intro conjI impI)
  show "is_admin s \<longleftrightarrow> (\<exists>x. s = Some x \<and> isAdmin x)"
    by (cases s) (simp_all add: is_admin_def)
next
  assume "\<not> is_admin s \<and>
    r \<in> {GetAdmin, PostAdminPosts b, PostAdminPostsDelete b, PostAdminMessagesDelete b}"
  then show "handle cfg e r s db = (Redirect ''/admin/login'', s, db)"
    by (auto simp: get_admin_def post_admin_posts_def post_admin_posts_delete_def
        post_admin_messages_delete_def requireAdmin_def)
next
  assume n: "\<not> is_admin s"
  show "posts (snd (snd (handle cfg e q s db))) = posts db"
    using n
    by (cases q)
      (auto simp: get_home_def get_post_def post_api_contact_def insert_message_def Let_def
        get_admin_login_def post_admin_login_def get_admin_logout_def get_admin_def
        post_admin_posts_def post_admin_posts_delete_def post_admin_messages_delete_def
        requireAdmin_def split: option.splits sum.splits)
  show "set (messages db) \<subseteq> set (messages (snd (snd (handle cfg e q s db))))"
    using n
    by (cases q)
      (auto simp: get_home_def get_post_def post_api_contact_def insert_message_def Let_def
        get_admin_login_def post_admin_login_def get_admin_logout_def get_admin_def
        post_admin_posts_def post_admin_posts_delete_def post_admin_messages_delete_def
        requireAdmin_def split: option.splits sum.splits)
qed

theorem admin_routes_need_admin_session_witness:
  "handle demo_config (demo_env []) (PostAdminPostsDelete (Some [''slug'' \<mapsto> ''first'']))
       visitor_session demo_store = (Redirect ''/admin/login'', visitor_session, demo_store) \<and>
   handle demo_config (demo_env []) (PostAdminMessagesDelete (Some [''id'' \<mapsto> ''1'']))
       None demo_store = (Redirect ''/admin/login'', None, demo_store) \<and>
   posts (snd (snd (handle demo_config (demo_env [])
       (PostAdminPosts (Some [''slug'' \<mapsto> ''first'', ''title'' \<mapsto> ''x'', ''content'' \<mapsto> ''y'']))
       visitor_session demo_store))) = posts demo_store"
  using admin_routes_need_admin_session [of visitor_session
      "PostAdminPostsDelete (Some [''slug'' \<mapsto> ''first''])" "Some [''slug'' \<mapsto> ''first'']"
      demo_config "demo_env []" demo_store
      "PostAdminPosts (Some [''slug'' \<mapsto> ''first'', ''title'' \<mapsto> ''x'', ''content'' \<mapsto> ''y''])"]
    admin_routes_need_admin_session [of None
      "PostAdminMessagesDelete (Some [''id'' \<mapsto> ''1''])" "Some [''id'' \<mapsto> ''1'']"
      demo_config "demo_env []" demo_store GetHome]
  by (simp add: is_admin_def visitor_session_def)

section \<open>Listing newest first\<close>

lemma newest_first_sorted:
  "sorted_wrt (\<lambda>a b. created b \<le> created a) (newest_first created xs)"
proof -
  have "sorted (map created (sort_key created (rev xs)))"
    by (rule sorted_sort_key)
  then have "sorted_wrt (\<lambda>a b. created a \<le> created b) (sort_key created (rev xs))"
    by (simp add: sorted_map)
  then show ?thesis
    by (simp add: newest_first_def sorted_wrt_rev)
qed

lemma newest_first_mset: "mset (newest_first created xs) = mset xs"
  by (simp add: newest_first_def)

text \<open>
  Claim C8: in every state of the store, the list of posts that \<^verbatim>\<open>GET /\<close> and
  \<^verbatim>\<open>GET /admin\<close> render and the list of messages that \<^verbatim>\<open>GET /admin\<close> renders are in
  decreasing order of \<open>created_at\<close>; when SQLite reports no error they hold exactly
  the rows of the table (the posts without their content, which is not selected).
\<close>

theorem lists_are_newest_first:
  "sorted_wrt (\<lambda>a b. p_created_at b \<le> p_created_at a) (rows_or_empty (select_posts e db)) \<and>
   sorted_wrt (\<lambda>a b. m_created_at b \<le> m_created_at a) (rows_or_empty (select_messages e db)) \<and>
   (\<not> fails e SelectPosts \<longrightarrow>
      mset (rows_or_empty (select_posts e db)) = mset (map (\<lambda>p. p\<lparr>p_content := None\<rparr>) (posts db))) \<and>
   (\<not> fails e SelectMessages \<longrightarrow>
      mset (rows_or_empty (select_messages e db)) = mset (messages db)) \<and>
   fst (handle cfg e GetHome s db) =
     Send 200 (renderPage (year e) ''Home''
       (renderHome projects (rows_or_empty (select_posts e db)) s)) \<and>
   (is_admin s \<longrightarrow>
      fst (handle cfg e GetAdmin s db) =
        Send 200 (renderPage (year e) ''Admin Dashboard''
          (renderAdminDashboard (rows_or_empty (select_messages e db))
             (rows_or_empty (select_posts e db)))))"
proof (intro conjI impI)
  have "sorted_wrt (\<lambda>a b. p_created_at b \<le> p_created_at a) (newest_first p_created_at (posts db))"
    by (rule newest_first_sorted)
  then show "sorted_wrt (\<lambda>a b. p_created_at b \<le> p_created_at a)
      (rows_or_empty (select_posts e db))"
    by (simp add: rows_or_empty_def select_posts_def sorted_wrt_map)
next
  show "sorted_wrt (\<lambda>a b. m_created_at b \<le> m_created_at a)
      (rows_or_empty (select_messages e db))"
    using newest_first_sorted [of m_created_at "messages db"]
    by (simp add: rows_or_empty_def select_messages_def)
next
  assume "\<not> fails e SelectPosts"
  then show "mset (rows_or_empty (select_posts e db)) =
      mset (map (\<lambda>p. p\<lparr>p_content := None\<rparr>) (posts db))"
    by (simp add: rows_or_empty_def select_posts_def newest_first_mset)
next
  assume "\<not> fails e SelectMessages"
  then show "mset (rows_or_empty (select_messages e db)) = mset (messages db)"
    by (simp add: rows_or_empty_def select_messages_def newest_first_mset)
next
  show "fst (handle cfg e GetHome s db) =
     Send 200 (renderPage (year e) ''Home''
       (renderHome projects (rows_or_empty (select_posts e db)) s))"
    by (simp add: get_home_def)
next
  assume "is_admin s"
  then show "fst (handle cfg e GetAdmin s db) =
        Send 200 (renderPage (year e) ''Admin Dashboard''
          (renderAdminDashboard (rows_or_empty (select_messages e db))
             (rows_or_empty (select_posts e db))))"
    by (simp add: get_admin_def requireAdmin_def)
qed

theorem lists_are_newest_first_witness:
  "sorted_wrt (\<lambda>a b. p_created_at b \<le> p_created_at a)
     (rows_or_empty (select_posts (demo_env []) two_posts_store)) \<and>
   mset (rows_or_empty (select_posts (demo_env []) two_posts_store)) =
     mset (map (\<lambda>p. p\<lparr>p_content := None\<rparr>) (posts two_posts_store)) \<and>
   map p_id (rows_or_empty (select_posts (demo_env []) two_posts_store)) = [3, 2, 1]"
proof -
  have "\<not> fails (demo_env []) SelectPosts"
    by (simp add: demo_env_def)
  then have "sorted_wrt (\<lambda>a b. p_created_at b \<le> p_created_at a)
       (rows_or_empty (select_posts (demo_env []) two_posts_store)) \<and>
     mset (rows_or_empty (select_posts (demo_env []) two_posts_store)) =
       mset (map (\<lambda>p. p\<lparr>p_content := None\<rparr>) (posts two_posts_store))"
    using lists_are_newest_first [of "demo_env []" two_posts_store demo_config None]
    by blast
  moreover have "map p_id (rows_or_empty (select_posts (demo_env []) two_posts_store)) = [3, 2, 1]"
    by code_simp
  ultimately show ?thesis by blast
qed

section \<open>The browser app: saving a post\<close>




end
